theory Spec2Isabelle
  imports Complex_Main
begin

section \<open>JavaScript values as the handlers of server.js see them\<close>

text \<open>
  The request handlers of \<^verbatim>\<open>server.js\<close> read fields of the parsed JSON body and
  of the query string, coerce them with \<^verbatim>\<open>Number(...)\<close>, \<^verbatim>\<open>String(...)\<close> and
  \<^verbatim>\<open>x || default\<close>, and hand the results to SQL statements.

  A JavaScript number is \<open>NaN\<close>, an infinity, or a finite double, carried as the exact
  rational it denotes. Negative zero is not distinguished from zero: both are falsy,
  neither is below zero, and \<^verbatim>\<open>Math.min\<close> and \<^verbatim>\<open>Math.max\<close> against the bounds of the
  handlers give the same either way. A string is its sequence of UTF-16 code units. A
  request field is one of the JSON scalars or is absent.
\<close>

datatype jsnum = NaN | NegInf | Fin rat | PosInf

type_synonym jsstring = "nat list"

datatype jsval = Undefined | Null | Bool bool | Num jsnum | Str jsstring

text \<open>The code units of a string literal of the source (all of them are ASCII).\<close>

definition code_unit :: "char \<Rightarrow> nat" where
  "code_unit c = of_char c"

definition utf16 :: "string \<Rightarrow> jsstring" where
  "utf16 s = map code_unit s"

text \<open>\<^verbatim>\<open>ToBoolean\<close>: what \<^verbatim>\<open>x || d\<close> and \<^verbatim>\<open>!x\<close> test.\<close>

fun truthy :: "jsval \<Rightarrow> bool" where
  "truthy Undefined = False"
| "truthy Null = False"
| "truthy (Bool b) = b"
| "truthy (Num n) = (n \<noteq> NaN \<and> n \<noteq> Fin 0)"
| "truthy (Str s) = (s \<noteq> [])"

definition js_or :: "jsval \<Rightarrow> jsval \<Rightarrow> jsval" where
  "js_or v d = (if truthy v then v else d)"

subsection \<open>Strings\<close>

text \<open>
  The white space that \<^verbatim>\<open>trim\<close> and \<^verbatim>\<open>Number\<close> strip: ECMAScript's
  \<^verbatim>\<open>WhiteSpace\<close> (tab, vertical tab, form feed, space, no-break space, the byte order
  mark and the other space separators of Unicode) and \<^verbatim>\<open>LineTerminator\<close> (line feed,
  carriage return, line and paragraph separator). All of them are single code units.
\<close>

definition is_ws :: "nat \<Rightarrow> bool" where
  "is_ws u =
     (u \<in> set [0x09, 0x0A, 0x0B, 0x0C, 0x0D, 0x20, 0xA0, 0x1680, 0x2028, 0x2029, 0x202F,
               0x205F, 0x3000, 0xFEFF]
      \<or> (0x2000 \<le> u \<and> u \<le> 0x200A))"

definition trim :: "jsstring \<Rightarrow> jsstring" where
  "trim s = rev (dropWhile is_ws (rev (dropWhile is_ws s)))"

text \<open>
  Of the handlers below only \<^verbatim>\<open>GET /api/appointments\<close> lower-cases a string, and it
  compares the result with the word \<^verbatim>\<open>all\<close>. The letters A to Z go to a to z; no
  other character of Unicode lower-cases to one of the letters of that word, so every
  other code unit can be left as it is without changing the outcome of the comparison.
\<close>

definition lower_unit :: "nat \<Rightarrow> nat" where
  "lower_unit u = (if 0x41 \<le> u \<and> u \<le> 0x5A then u + 0x20 else u)"

definition toLowerCase :: "jsstring \<Rightarrow> jsstring" where
  "toLowerCase s = map lower_unit s"

text \<open>\<^verbatim>\<open>isNonEmptyString(v)\<close>: \<^verbatim>\<open>typeof v === "string" && v.trim().length > 0\<close>.\<close>

fun isNonEmptyString :: "jsval \<Rightarrow> bool" where
  "isNonEmptyString (Str s) = (length (trim s) > 0)"
| "isNonEmptyString _ = False"

text \<open>The string of a field that \<^verbatim>\<open>isNonEmptyString\<close> has accepted.\<close>

fun str_of :: "jsval \<Rightarrow> jsstring" where
  "str_of (Str s) = s"
| "str_of _ = []"

subsection \<open>Doubles\<close>

text \<open>
  The Number value for a real number: the nearest double, the one with the even
  significand when two are equally near (IEEE 754 binary64, round to nearest, ties to
  even). A magnitude that rounds to \<open>2 ^ 1024\<close> or more is infinite. The doubles from
  \<open>2 ^ e\<close> up to \<open>2 ^ (e + 1)\<close> are \<open>2 ^ (e - 52)\<close> apart; below \<open>2 ^ (- 1022)\<close> they
  are \<open>2 ^ (- 1074)\<close> apart, and what lies nearest to 0 becomes 0.
\<close>

function bit_length :: "nat \<Rightarrow> nat" where
  "bit_length n = (if n = 0 then 0 else 1 + bit_length (n div 2))"
  by pat_completeness auto
termination
  by (relation "measure id") auto

declare bit_length.simps [simp del]

text \<open>For \<open>a > 0\<close>, the \<open>e\<close> with \<open>2 ^ e \<le> a < 2 ^ (e + 1)\<close>.\<close>

definition floor_log2 :: "rat \<Rightarrow> int" where
  "floor_log2 a =
     (if 1 \<le> a then int (bit_length (nat \<lfloor>a\<rfloor>)) - 1
      else - int (bit_length (nat (\<lceil>1 / a\<rceil> - 1))))"

definition pow2 :: "int \<Rightarrow> rat" where
  "pow2 e = (if 0 \<le> e then 2 ^ nat e else 1 / 2 ^ nat (- e))"

definition round_half_even :: "rat \<Rightarrow> int" where
  "round_half_even x =
     (let n = \<lfloor>x\<rfloor>; f = x - of_int n
      in if f < 1 / 2 then n else if 1 / 2 < f then n + 1 else if even n then n else n + 1)"

definition binary64 :: "rat \<Rightarrow> jsnum" where
  "binary64 x =
     (if x = 0 then Fin 0
      else
        let a = \<bar>x\<bar>;
            infinity = (if x < 0 then NegInf else PosInf)
        in if 2 ^ 1024 \<le> a then infinity
           else
             let e = (if a < 1 / 2 ^ 1022 then - 1022 else floor_log2 a);
                 ulp = pow2 (e - 52);
                 v = of_int (round_half_even (a / ulp)) * ulp
             in if 2 ^ 1024 \<le> v then infinity
                else Fin (if x < 0 then - v else v))"

subsection \<open>Numbers\<close>

text \<open>
  \<^verbatim>\<open>Number(s)\<close> on a string follows the grammar of ECMAScript's
  \<^verbatim>\<open>StringNumericLiteral\<close>: surrounding white space is dropped, the empty string is 0,
  then either a radix literal (\<^verbatim>\<open>0x\<close>, \<^verbatim>\<open>0o\<close>, \<^verbatim>\<open>0b\<close>, unsigned) or an optionally
  signed decimal literal or \<^verbatim>\<open>Infinity\<close>; anything else is \<open>NaN\<close>. The result is the
  Number value for the mathematical value of the literal.
\<close>

definition is_digit :: "nat \<Rightarrow> bool" where
  "is_digit u = (48 \<le> u \<and> u \<le> 57)"

definition digit_value :: "nat \<Rightarrow> nat" where
  "digit_value u =
     (if 48 \<le> u \<and> u \<le> 57 then u - 48
      else if 97 \<le> u \<and> u \<le> 102 then u - 87
      else if 65 \<le> u \<and> u \<le> 70 then u - 55
      else 0)"

definition is_radix_digit :: "nat \<Rightarrow> nat \<Rightarrow> bool" where
  "is_radix_digit b u =
     (((48 \<le> u \<and> u \<le> 57) \<or> (97 \<le> u \<and> u \<le> 102) \<or> (65 \<le> u \<and> u \<le> 70))
      \<and> digit_value u < b)"

definition digits_value :: "nat \<Rightarrow> jsstring \<Rightarrow> nat" where
  "digits_value b ds = foldl (\<lambda>a u. a * b + digit_value u) 0 ds"

definition pow10 :: "int \<Rightarrow> rat" where
  "pow10 e = (if 0 \<le> e then 10 ^ nat e else 1 / 10 ^ nat (- e))"

definition exponent_part :: "jsstring \<Rightarrow> int option" where
  "exponent_part s =
     (case s of
        [] \<Rightarrow> Some 0
      | c # r \<Rightarrow>
          if c = code_unit CHR ''e'' \<or> c = code_unit CHR ''E'' then
            (let neg = (r \<noteq> [] \<and> hd r = code_unit CHR ''-'');
                 ds = (if r \<noteq> [] \<and> (hd r = code_unit CHR ''-'' \<or> hd r = code_unit CHR ''+'')
                       then tl r else r)
             in if ds \<noteq> [] \<and> list_all is_digit ds
                then Some (if neg then - int (digits_value 10 ds) else int (digits_value 10 ds))
                else None)
          else None)"

definition unsigned_decimal :: "jsstring \<Rightarrow> jsnum" where
  "unsigned_decimal s =
     (if s = utf16 ''Infinity'' then PosInf
      else
        let ip = takeWhile is_digit s;
            r1 = dropWhile is_digit s;
            dot = (r1 \<noteq> [] \<and> hd r1 = code_unit CHR ''.'');
            fp = (if dot then takeWhile is_digit (tl r1) else []);
            r2 = (if dot then dropWhile is_digit (tl r1) else r1)
        in if ip = [] \<and> fp = [] then NaN
           else (case exponent_part r2 of
                   None \<Rightarrow> NaN
                 | Some e \<Rightarrow>
                     binary64 (of_nat (digits_value 10 (ip @ fp)) * pow10 (e - int (length fp)))))"

definition radix_of :: "jsstring \<Rightarrow> nat option" where
  "radix_of s =
     (case s of
        z # x # _ \<Rightarrow>
          if z \<noteq> code_unit CHR ''0'' then None
          else if x = code_unit CHR ''x'' \<or> x = code_unit CHR ''X'' then Some 16
          else if x = code_unit CHR ''o'' \<or> x = code_unit CHR ''O'' then Some 8
          else if x = code_unit CHR ''b'' \<or> x = code_unit CHR ''B'' then Some 2
          else None
      | _ \<Rightarrow> None)"

fun negate :: "jsnum \<Rightarrow> jsnum" where
  "negate NaN = NaN"
| "negate NegInf = PosInf"
| "negate PosInf = NegInf"
| "negate (Fin x) = Fin (- x)"

definition StringToNumber :: "jsstring \<Rightarrow> jsnum" where
  "StringToNumber s0 =
     (let s = trim s0 in
      if s = [] then Fin 0
      else (case radix_of s of
              Some b \<Rightarrow>
                (let ds = drop 2 s in
                 if ds \<noteq> [] \<and> list_all (is_radix_digit b) ds
                 then binary64 (of_nat (digits_value b ds)) else NaN)
            | None \<Rightarrow>
                if hd s = code_unit CHR ''-'' then negate (unsigned_decimal (tl s))
                else if hd s = code_unit CHR ''+'' then unsigned_decimal (tl s)
                else unsigned_decimal s))"

text \<open>\<^verbatim>\<open>Number(v)\<close>, ECMAScript's \<^verbatim>\<open>ToNumber\<close> on a scalar.\<close>

fun Number :: "jsval \<Rightarrow> jsnum" where
  "Number Undefined = NaN"
| "Number Null = Fin 0"
| "Number (Bool b) = (if b then Fin 1 else Fin 0)"
| "Number (Num n) = n"
| "Number (Str s) = StringToNumber s"

text \<open>The comparison \<^verbatim>\<open>a < b\<close> on numbers: false as soon as one side is \<open>NaN\<close>.\<close>

fun js_lt :: "jsnum \<Rightarrow> jsnum \<Rightarrow> bool" where
  "js_lt NaN _ = False"
| "js_lt _ NaN = False"
| "js_lt (Fin a) (Fin b) = (a < b)"
| "js_lt NegInf NegInf = False"
| "js_lt NegInf _ = True"
| "js_lt _ NegInf = False"
| "js_lt PosInf _ = False"
| "js_lt _ PosInf = True"

text \<open>\<^verbatim>\<open>Math.min\<close> and \<^verbatim>\<open>Math.max\<close> of two numbers: \<open>NaN\<close> when either is \<open>NaN\<close>.\<close>

definition Math_min :: "jsnum \<Rightarrow> jsnum \<Rightarrow> jsnum" where
  "Math_min a b = (if a = NaN \<or> b = NaN then NaN else if js_lt b a then b else a)"

definition Math_max :: "jsnum \<Rightarrow> jsnum \<Rightarrow> jsnum" where
  "Math_max a b = (if a = NaN \<or> b = NaN then NaN else if js_lt a b then b else a)"

fun Number_isFinite :: "jsnum \<Rightarrow> bool" where
  "Number_isFinite (Fin _) = True"
| "Number_isFinite _ = False"

text \<open>\<^verbatim>\<open>!n\<close> on a number: true for 0 and for \<open>NaN\<close>.\<close>

definition js_not :: "jsnum \<Rightarrow> bool" where
  "js_not n = (\<not> truthy (Num n))"

text \<open>
  \<^verbatim>\<open>String(n)\<close> on an integer, as the template literals of \<^verbatim>\<open>generateBillNo\<close>
  print the year and \<^verbatim>\<open>Date.now()\<close>.
\<close>

definition digit_char :: "nat \<Rightarrow> nat" where
  "digit_char d = 48 + d"

function string_of_nat :: "nat \<Rightarrow> jsstring" where
  "string_of_nat n =
     (if n < 10 then [digit_char n]
      else string_of_nat (n div 10) @ [digit_char (n mod 10)])"
  by pat_completeness auto
termination
  by (relation "measure id") auto

declare string_of_nat.simps [simp del]

definition string_of_int :: "int \<Rightarrow> jsstring" where
  "string_of_int i =
     (if i < 0 then code_unit CHR ''-'' # string_of_nat (nat (- i)) else string_of_nat (nat i))"

text \<open>\<^verbatim>\<open>s.slice(-k)\<close>: the last \<open>k\<close> code units, the whole string when it is shorter.\<close>

definition slice_last :: "nat \<Rightarrow> jsstring \<Rightarrow> jsstring" where
  "slice_last k s = drop (length s - k) s"

text \<open>
  A query parameter is absent or a string (\<^verbatim>\<open>req.query.name\<close> of a plain
  \<^verbatim>\<open>?name=value\<close>).
\<close>

fun query :: "jsstring option \<Rightarrow> jsval" where
  "query None = Undefined"
| "query (Some s) = Str s"

section \<open>The relational store of hospital.mysql.sql\<close>

text \<open>
  The tables the billing handlers touch, with the column types of the schema. A
  \<^verbatim>\<open>DECIMAL(10,2)\<close> value is held as its number of hundredths. The \<^verbatim>\<open>status\<close>
  column of a bill takes one of four fixed words chosen by \<^verbatim>\<open>pickEnum\<close>; no statement
  below depends on it and it is left out of the row.
\<close>

record bill =
  b_id :: int
  b_patient_id :: int
  b_bill_no :: jsstring
  b_bill_date :: jsstring
  b_currency :: jsstring
  b_total_amount :: int

record billing_item =
  i_id :: int
  i_bill_id :: int
  i_description :: jsstring
  i_qty :: int
  i_unit_price :: int

record store =
  patients :: "int list"
  bills :: "bill list"
  billing_items :: "billing_item list"
  next_bill_id :: int
  next_item_id :: int

text \<open>
  What the source leaves to its platform: the JavaScript runtime and the database server.
  \<open>toUpperCase\<close> is \<^verbatim>\<open>String.prototype.toUpperCase\<close>, which maps a string through the
  case tables of the Unicode Character Database; the result can be longer than the string
  (the letter \<^verbatim>\<open>U+00DF\<close> becomes \<^verbatim>\<open>SS\<close>). \<open>strict\<close> is the SQL mode: in strict mode
  a number that does not fit its column rejects the statement, otherwise the value is
  clipped. \<open>round_frac\<close> is how the server rounds a bound double with a fractional part to
  an integer (the rule differs between servers and platforms; integers are taken as they
  are). \<open>nonfinite\<close> says what becomes of a statement with a \<open>NaN\<close> or infinite parameter:
  \<open>None\<close> when the server rejects it, \<open>Some k\<close> when it accepts it and an \<^verbatim>\<open>INT\<close> column
  takes \<open>k\<close> from it (in a \<^verbatim>\<open>WHERE\<close> clause such a parameter equals no id).
  \<open>date_col\<close> is the value a \<^verbatim>\<open>DATE\<close> column takes from a string and \<open>varchar n\<close> the
  value a \<^verbatim>\<open>VARCHAR(n)\<close> or \<^verbatim>\<open>CHAR(n)\<close> column takes from a string, \<open>None\<close> when the
  statement is rejected. \<open>collation_key\<close> sends a string to what the collation
  \<^verbatim>\<open>utf8mb4_unicode_ci\<close> of the tables compares: two strings are equal under the
  collation when their keys are the same. A rejected \<^verbatim>\<open>INSERT\<close> that has reached the
  table (a foreign or unique key fails) has used up its \<^verbatim>\<open>AUTO_INCREMENT\<close> value.
\<close>

record engine =
  toUpperCase :: "jsstring \<Rightarrow> jsstring"
  strict :: bool
  round_frac :: "rat \<Rightarrow> int"
  nonfinite :: "jsnum \<Rightarrow> int option"
  date_col :: "jsstring \<Rightarrow> jsstring option"
  varchar :: "nat \<Rightarrow> jsstring \<Rightarrow> jsstring option"
  collation_key :: "jsstring \<Rightarrow> jsstring"

definition clip :: "bool \<Rightarrow> int \<Rightarrow> int \<Rightarrow> int \<Rightarrow> int option" where
  "clip strct lo hi v =
     (if lo \<le> v \<and> v \<le> hi then Some v
      else if strct then None
      else Some (max lo (min hi v)))"

definition to_int :: "engine \<Rightarrow> rat \<Rightarrow> int" where
  "to_int eng x = (if of_int \<lfloor>x\<rfloor> = x then \<lfloor>x\<rfloor> else round_frac eng x)"

text \<open>A bound JavaScript number arriving in an \<^verbatim>\<open>INT\<close> column.\<close>

definition int_column :: "engine \<Rightarrow> jsnum \<Rightarrow> int option" where
  "int_column eng q =
     (case q of
        Fin x \<Rightarrow> clip (strict eng) (- 2147483648) 2147483647 (to_int eng x)
      | _ \<Rightarrow> nonfinite eng q)"

text \<open>
  The largest magnitude of a \<^verbatim>\<open>DECIMAL(10,2)\<close>, in hundredths: 99999999.99.
\<close>

definition DECIMAL_10_2_MAX :: int where
  "DECIMAL_10_2_MAX = 9999999999"

text \<open>A bound JavaScript number arriving in a \<^verbatim>\<open>DECIMAL(10,2)\<close> column.\<close>

definition decimal_column :: "engine \<Rightarrow> jsnum \<Rightarrow> int option" where
  "decimal_column eng q =
     (case q of
        Fin x \<Rightarrow> clip (strict eng) (- DECIMAL_10_2_MAX) DECIMAL_10_2_MAX (to_int eng (x * 100))
      | _ \<Rightarrow> None)"

text \<open>
  Rounding inside SQL, on exact decimal values: half away from zero. \<open>ROUND2 x\<close> is
  \<^verbatim>\<open>ROUND(x, 2)\<close>, in hundredths.
\<close>

definition round_half_away :: "rat \<Rightarrow> int" where
  "round_half_away x = (if 0 \<le> x then \<lfloor>x + 1 / 2\<rfloor> else - \<lfloor>- x + 1 / 2\<rfloor>)"

definition ROUND2 :: "rat \<Rightarrow> int" where
  "ROUND2 x = round_half_away (x * 100)"

text \<open>An exact decimal assigned to a \<^verbatim>\<open>DECIMAL(10,2)\<close> column.\<close>

definition decimal_assign :: "engine \<Rightarrow> rat \<Rightarrow> int option" where
  "decimal_assign eng x = clip (strict eng) (- DECIMAL_10_2_MAX) DECIMAL_10_2_MAX (ROUND2 x)"

text \<open>
  \<^verbatim>\<open>WHERE id = ?\<close> with a bound number: an \<^verbatim>\<open>INT\<close> column equals the parameter when
  the parameter is that integer.
\<close>

definition where_eq :: "jsnum \<Rightarrow> int \<Rightarrow> bool" where
  "where_eq q k = (q = Fin (of_int k))"

text \<open>Whether the server takes the number as a parameter of a \<^verbatim>\<open>WHERE\<close> clause.\<close>

definition binds :: "engine \<Rightarrow> jsnum \<Rightarrow> bool" where
  "binds eng q = (Number_isFinite q \<or> nonfinite eng q \<noteq> None)"

text \<open>The value of the SQL expression \<^verbatim>\<open>qty * unit_price\<close> on a row.\<close>

definition line_amount :: "billing_item \<Rightarrow> rat" where
  "line_amount i = of_int (i_qty i) * (of_int (i_unit_price i) / 100)"

definition items_of :: "store \<Rightarrow> int \<Rightarrow> billing_item list" where
  "items_of s b = filter (\<lambda>i. i_bill_id i = b) (billing_items s)"

text \<open>
  \<^verbatim>\<open>SELECT COALESCE(SUM(i.qty * i.unit_price), 0) FROM billing_items i WHERE i.bill_id = b.id\<close>
\<close>

definition item_sum :: "store \<Rightarrow> int \<Rightarrow> rat" where
  "item_sum s b = sum_list (map line_amount (items_of s b))"

section \<open>The handlers of server.js\<close>

text \<open>
  A response is the HTTP status with its JSON body: \<^verbatim>\<open>apiError(res, status, {error})\<close>,
  \<^verbatim>\<open>apiError(res, 500, dbErrorPayload())\<close> from the \<^verbatim>\<open>catch\<close> of every handler, or
  the data of a success.
\<close>

datatype 'r payload = Error string | Database_error | Json 'r

type_synonym 'r response = "nat \<times> 'r payload"

text \<open>
  The readings a request takes of its clocks: \<^verbatim>\<open>new Date().getFullYear()\<close>,
  \<^verbatim>\<open>Date.now()\<close> and the server's \<^verbatim>\<open>CURDATE()\<close>.
\<close>

record clock =
  year :: int
  now_ms :: int
  curdate :: jsstring

definition generateBillNo :: "clock \<Rightarrow> jsstring" where
  "generateBillNo clk =
     (let yyyy = year clk;
          suffix = slice_last 6 (string_of_int (now_ms clk))
      in utf16 ''BILL-'' @ string_of_int yyyy @ utf16 ''-'' @ suffix)"

subsection \<open>POST /api/billing\<close>

record bill_body =
  patient_id :: jsval
  currency :: jsval
  bill_no :: jsval
  bill_date :: jsval

definition bill_patient_id :: "bill_body \<Rightarrow> jsnum" where
  "bill_patient_id body = Number (js_or (patient_id body) (Num (Fin 0)))"

definition bill_currency :: "engine \<Rightarrow> bill_body \<Rightarrow> jsstring" where
  "bill_currency eng body =
     (if isNonEmptyString (currency body)
      then toUpperCase eng (take 3 (trim (str_of (currency body))))
      else utf16 ''DZD'')"

definition bill_billNo :: "clock \<Rightarrow> bill_body \<Rightarrow> jsstring" where
  "bill_billNo clk body =
     (if isNonEmptyString (bill_no body) then trim (str_of (bill_no body)) else generateBillNo clk)"

definition bill_billDate :: "bill_body \<Rightarrow> jsstring option" where
  "bill_billDate body =
     (if isNonEmptyString (bill_date body) then Some (trim (str_of (bill_date body))) else None)"

text \<open>
  \<^verbatim>\<open>INSERT INTO bills (patient_id, bill_no, bill_date, currency, total_amount, status)
  VALUES (?, ?, COALESCE(?, CURDATE()), ?, 0.00, ?)\<close>.
  The values are first brought to their column types; then the row takes the next
  \<^verbatim>\<open>AUTO_INCREMENT\<close> id and is checked against the foreign key to \<^verbatim>\<open>patients\<close> and
  the unique key on \<^verbatim>\<open>bill_no\<close>. The result is the \<^verbatim>\<open>insertId\<close>, or \<open>None\<close> when the
  statement throws.
\<close>

definition insert_bill ::
  "engine \<Rightarrow> clock \<Rightarrow> jsnum \<Rightarrow> jsstring \<Rightarrow> jsstring option \<Rightarrow> jsstring \<Rightarrow> store \<Rightarrow> int option \<times> store"
where
  "insert_bill eng clk patientId billNo billDate cur s =
     (case int_column eng patientId of
        None \<Rightarrow> (None, s)
      | Some p \<Rightarrow>
     (case varchar eng 60 billNo of
        None \<Rightarrow> (None, s)
      | Some no \<Rightarrow>
     (case date_col eng (case billDate of None \<Rightarrow> curdate clk | Some d \<Rightarrow> d) of
        None \<Rightarrow> (None, s)
      | Some d \<Rightarrow>
     (case varchar eng 3 cur of
        None \<Rightarrow> (None, s)
      | Some c \<Rightarrow>
          if p \<notin> set (patients s)
             \<or> collation_key eng no \<in> set (map (\<lambda>b. collation_key eng (b_bill_no b)) (bills s))
          then (None, s\<lparr>next_bill_id := next_bill_id s + 1\<rparr>)
          else (Some (next_bill_id s),
                s\<lparr>bills := bills s @
                      [\<lparr>b_id = next_bill_id s, b_patient_id = p, b_bill_no = no,
                        b_bill_date = d, b_currency = c, b_total_amount = 0\<rparr>],
                   next_bill_id := next_bill_id s + 1\<rparr>)))))"

definition post_billing ::
  "engine \<Rightarrow> clock \<Rightarrow> bill_body \<Rightarrow> store \<Rightarrow> (int \<times> jsstring) response \<times> store"
where
  "post_billing eng clk body s =
     (let patientId = bill_patient_id body in
      if js_not patientId then ((400, Error ''patient_id is required''), s)
      else
        let cur = bill_currency eng body;
            billNo = bill_billNo clk body;
            billDate = bill_billDate body
        in case insert_bill eng clk patientId billNo billDate cur s of
             (None, s') \<Rightarrow> ((500, Database_error), s')
           | (Some insertId, s') \<Rightarrow> ((201, Json (insertId, billNo)), s'))"

subsection \<open>POST /api/billing/items\<close>

record item_body =
  bill_id :: jsval
  description :: jsval
  qty :: jsval
  unit_price :: jsval

definition item_billId :: "item_body \<Rightarrow> jsnum" where
  "item_billId body = Number (js_or (bill_id body) (Num (Fin 0)))"

definition item_description :: "item_body \<Rightarrow> jsstring" where
  "item_description body =
     (if isNonEmptyString (description body) then trim (str_of (description body)) else [])"

definition item_qty :: "item_body \<Rightarrow> jsnum" where
  "item_qty body = Math_max (Fin 1) (Math_min (Fin 100000) (Number (js_or (qty body) (Num (Fin 1)))))"

definition item_unitPrice :: "item_body \<Rightarrow> jsnum" where
  "item_unitPrice body = Number (js_or (unit_price body) (Num (Fin 0)))"

text \<open>
  \<^verbatim>\<open>INSERT INTO billing_items (bill_id, description, qty, unit_price) VALUES (?, ?, ?, ?)\<close>,
  with the foreign key to \<^verbatim>\<open>bills\<close>.
\<close>

definition insert_item ::
  "engine \<Rightarrow> jsnum \<Rightarrow> jsstring \<Rightarrow> jsnum \<Rightarrow> jsnum \<Rightarrow> store \<Rightarrow> int option \<times> store"
where
  "insert_item eng billId descr q unitPrice s =
     (case int_column eng billId of
        None \<Rightarrow> (None, s)
      | Some b \<Rightarrow>
     (case varchar eng 200 descr of
        None \<Rightarrow> (None, s)
      | Some d \<Rightarrow>
     (case int_column eng q of
        None \<Rightarrow> (None, s)
      | Some n \<Rightarrow>
     (case decimal_column eng unitPrice of
        None \<Rightarrow> (None, s)
      | Some p \<Rightarrow>
          if b \<notin> set (map b_id (bills s))
          then (None, s\<lparr>next_item_id := next_item_id s + 1\<rparr>)
          else (Some (next_item_id s),
                s\<lparr>billing_items := billing_items s @
                      [\<lparr>i_id = next_item_id s, i_bill_id = b, i_description = d,
                        i_qty = n, i_unit_price = p\<rparr>],
                   next_item_id := next_item_id s + 1\<rparr>)))))"

text \<open>
  \<^verbatim>\<open>UPDATE bills b SET b.total_amount = (SELECT COALESCE(SUM(i.qty * i.unit_price), 0)
  FROM billing_items i WHERE i.bill_id = b.id) WHERE b.id = ?\<close>.
  Every row the \<^verbatim>\<open>WHERE\<close> selects takes the sum as its new total; a sum that the
  column rejects makes the statement throw and leaves the table as it was.
\<close>

definition recompute :: "engine \<Rightarrow> store \<Rightarrow> jsnum \<Rightarrow> bill \<Rightarrow> bill option" where
  "recompute eng s billId b =
     (if where_eq billId (b_id b)
      then map_option (\<lambda>t. b\<lparr>b_total_amount := t\<rparr>) (decimal_assign eng (item_sum s (b_id b)))
      else Some b)"

definition update_total :: "engine \<Rightarrow> jsnum \<Rightarrow> store \<Rightarrow> store option" where
  "update_total eng billId s =
     (if \<not> binds eng billId then None
      else map_option (\<lambda>bs. s\<lparr>bills := bs\<rparr>) (those (map (recompute eng s billId) (bills s))))"

definition post_billing_items :: "engine \<Rightarrow> item_body \<Rightarrow> store \<Rightarrow> int response \<times> store" where
  "post_billing_items eng body s =
     (let billId = item_billId body in
      if js_not billId then ((400, Error ''bill_id is required''), s)
      else
        let descr = item_description body in
        if descr = [] then ((400, Error ''description is required''), s)
        else
          let q = item_qty body;
              unitPrice = item_unitPrice body
          in if \<not> Number_isFinite unitPrice \<or> js_lt unitPrice (Fin 0)
             then ((400, Error ''unit_price must be >= 0''), s)
             else (case insert_item eng billId descr q unitPrice s of
                     (None, s1) \<Rightarrow> ((500, Database_error), s1)
                   | (Some insertId, s1) \<Rightarrow>
                       (case update_total eng billId s1 of
                          None \<Rightarrow> ((500, Database_error), s1)
                        | Some s2 \<Rightarrow> ((201, Json insertId), s2))))"

subsection \<open>GET /api/billing/items\<close>

record item_row =
  r_id :: int
  r_description :: jsstring
  r_qty :: int
  r_unit_price :: int
  r_line_total :: int

text \<open>
  \<^verbatim>\<open>SELECT id, description, qty, unit_price, ROUND(qty * unit_price, 2) AS line_total\<close>
\<close>

definition select_item :: "billing_item \<Rightarrow> item_row" where
  "select_item i =
     \<lparr>r_id = i_id i, r_description = i_description i, r_qty = i_qty i,
      r_unit_price = i_unit_price i, r_line_total = ROUND2 (line_amount i)\<rparr>"

definition get_billing_items ::
  "engine \<Rightarrow> jsstring option \<Rightarrow> store \<Rightarrow> item_row list response"
where
  "get_billing_items eng q s =
     (let billId = Number (js_or (query q) (Num (Fin 0))) in
      if js_not billId then (400, Error ''billId is required'')
      else if \<not> binds eng billId then (500, Database_error)
      else (200, Json (map select_item
                         (sort_key i_id
                            (filter (\<lambda>i. where_eq billId (i_bill_id i)) (billing_items s))))))"

subsection \<open>GET /api/patients and GET /api/doctors\<close>

text \<open>\<^verbatim>\<open>Math.min(Number(req.query.limit || dflt), 100)\<close>\<close>

definition list_limit :: "rat \<Rightarrow> jsstring option \<Rightarrow> jsnum" where
  "list_limit dflt q = Math_min (Number (js_or (query q) (Num (Fin dflt)))) (Fin 100)"

text \<open>
  The number is printed into the statement as \<^verbatim>\<open>LIMIT ${lq}\<close>. The server reads a
  \<^verbatim>\<open>LIMIT\<close> only from a plain non-negative integer literal, which is how JavaScript
  prints a non-negative integer below \<open>10\<^sup>2\<^sup>1\<close>; for any other text (\<^verbatim>\<open>NaN\<close>,
  \<^verbatim>\<open>-5\<close>, \<^verbatim>\<open>2.5\<close>, \<^verbatim>\<open>1e+21\<close>) the statement throws.
\<close>

definition sql_limit :: "jsnum \<Rightarrow> nat option" where
  "sql_limit lq =
     (case lq of
        Fin x \<Rightarrow> if of_int \<lfloor>x\<rfloor> = x \<and> 0 \<le> x \<and> x < 10 ^ 21 then Some (nat \<lfloor>x\<rfloor>) else None
      | _ \<Rightarrow> None)"

text \<open>
  Both handlers answer with one JSON object per row of their \<^verbatim>\<open>SELECT\<close>; \<open>rows\<close> is
  what the statement yields without its \<^verbatim>\<open>LIMIT\<close> clause, in its \<^verbatim>\<open>ORDER BY\<close>
  order, and \<open>shape\<close> the object built from a row by \<^verbatim>\<open>rows.map(...)\<close>.
\<close>

definition select_limited :: "jsnum \<Rightarrow> ('a \<Rightarrow> 'b) \<Rightarrow> 'a list \<Rightarrow> 'b list response" where
  "select_limited lq shape rows =
     (case sql_limit lq of
        None \<Rightarrow> (500, Database_error)
      | Some n \<Rightarrow> (200, Json (map shape (take n rows))))"

definition get_patients :: "jsstring option \<Rightarrow> ('a \<Rightarrow> 'b) \<Rightarrow> 'a list \<Rightarrow> 'b list response" where
  "get_patients q shape rows = select_limited (list_limit 10 q) shape rows"

definition get_doctors :: "jsstring option \<Rightarrow> ('a \<Rightarrow> 'b) \<Rightarrow> 'a list \<Rightarrow> 'b list response" where
  "get_doctors q shape rows = select_limited (list_limit 20 q) shape rows"

subsection \<open>GET /api/appointments\<close>

text \<open>
  A row of \<^verbatim>\<open>appointments\<close> joined with its doctor and its department (both exist,
  by the foreign keys). The time of day is held in seconds.
\<close>

record appointment =
  appt_date :: jsstring
  appt_time :: nat
  appt_room :: "jsstring option"
  appt_status :: jsstring
  doctor_name :: jsstring
  department_name :: jsstring

text \<open>\<^verbatim>\<open>String(req.query.day || "today").toLowerCase()\<close>\<close>

definition dayQ :: "jsstring option \<Rightarrow> jsstring" where
  "dayQ day = toLowerCase (str_of (js_or (query day) (Str (utf16 ''today''))))"

definition select_appointments ::
  "clock \<Rightarrow> jsstring option \<Rightarrow> appointment list \<Rightarrow> appointment list"
where
  "select_appointments clk day appts =
     take 20 (sort_key appt_time
       (if dayQ day = utf16 ''all'' then appts
        else filter (\<lambda>a. appt_date a = curdate clk) appts))"

definition get_appointments ::
  "clock \<Rightarrow> jsstring option \<Rightarrow> (appointment \<Rightarrow> 'b) \<Rightarrow> appointment list \<Rightarrow> 'b list response"
where
  "get_appointments clk day shape appts = (200, Json (map shape (select_appointments clk day appts)))"

section \<open>Requests in sequence, and what the specification asks of the store\<close>

datatype request = Create_bill clock bill_body | Add_item item_body

fun apply_request :: "engine \<Rightarrow> request \<Rightarrow> store \<Rightarrow> store" where
  "apply_request eng (Create_bill clk body) s = snd (post_billing eng clk body s)"
| "apply_request eng (Add_item body) s = snd (post_billing_items eng body s)"

fun run :: "engine \<Rightarrow> request list \<Rightarrow> store \<Rightarrow> store" where
  "run eng [] s = s"
| "run eng (r # rs) s = run eng rs (apply_request eng r s)"

text \<open>
  The invariant of the specification: the total of every bill is the sum over its items
  of \<^verbatim>\<open>quantity * unit_price\<close>, rounded to two decimals.
\<close>

definition totals_consistent :: "store \<Rightarrow> bool" where
  "totals_consistent s = list_all (\<lambda>b. b_total_amount b = ROUND2 (item_sum s (b_id b))) (bills s)"

text \<open>
  What the schema keeps by itself: every item belongs to a bill of the table (the foreign
  key of \<^verbatim>\<open>billing_items\<close>) and every id in use lies below the next \<^verbatim>\<open>AUTO_INCREMENT\<close>
  value.
\<close>

definition store_ok :: "store \<Rightarrow> bool" where
  "store_ok s =
     (list_all (\<lambda>i. i_bill_id i \<in> set (map b_id (bills s))) (billing_items s)
      \<and> list_all (\<lambda>b. b_id b < next_bill_id s) (bills s)
      \<and> list_all (\<lambda>i. i_id i < next_item_id s) (billing_items s))"

text \<open>Every sum of the store is one that \<^verbatim>\<open>DECIMAL(10,2)\<close> can hold.\<close>

definition sums_fit :: "store \<Rightarrow> bool" where
  "sums_fit s = list_all (\<lambda>b. \<bar>ROUND2 (item_sum s (b_id b))\<bar> \<le> DECIMAL_10_2_MAX) (bills s)"

text \<open>
  The bill id of an item request is a whole number that an \<^verbatim>\<open>INT\<close> column holds (or is
  missing altogether, which the handler rejects).
\<close>

definition whole_bill_id :: "item_body \<Rightarrow> bool" where
  "whole_bill_id body =
     (case item_billId body of
        Fin x \<Rightarrow> of_int \<lfloor>x\<rfloor> = x \<and> - 2147483648 \<le> \<lfloor>x\<rfloor> \<and> \<lfloor>x\<rfloor> \<le> 2147483647
      | NaN \<Rightarrow> True
      | _ \<Rightarrow> False)"

fun whole_request :: "request \<Rightarrow> bool" where
  "whole_request (Create_bill clk body) = True"
| "whole_request (Add_item body) = whole_bill_id body"

text \<open>
  A sequence of requests during which every item request names its bill by a whole number
  and every sum stays within the column.
\<close>

fun within_columns :: "engine \<Rightarrow> request list \<Rightarrow> store \<Rightarrow> bool" where
  "within_columns eng [] s = True"
| "within_columns eng (r # rs) s =
     (whole_request r \<and> sums_fit (apply_request eng r s)
      \<and> within_columns eng rs (apply_request eng r s))"

text \<open>
  The unique key on \<^verbatim>\<open>bill_no\<close>, as a property of the table: no two rows have bill
  numbers that are equal under the collation.
\<close>

definition bill_nos_unique :: "engine \<Rightarrow> store \<Rightarrow> bool" where
  "bill_nos_unique eng s = distinct (map (\<lambda>b. collation_key eng (b_bill_no b)) (bills s))"


section \<open>Concrete data\<close>

text \<open>
  An upper-casing that is Unicode's on the Basic Latin block and on the letter
  \<^verbatim>\<open>U+00DF\<close> (sharp s, which becomes \<^verbatim>\<open>SS\<close>); the concrete requests below use no
  other characters in a currency.
\<close>

definition upper_basic :: "jsstring \<Rightarrow> jsstring" where
  "upper_basic s =
     concat (map (\<lambda>u. if 0x61 \<le> u \<and> u \<le> 0x7A then [u - 0x20]
                        else if u = 0xDF then [0x53, 0x53]
                        else [u]) s)"

text \<open>
  A MySQL server in strict or in lenient mode that rounds halves away from zero, rejects
  parameters that are not finite and takes every date string. A string that is longer
  than its column rejects the statement in strict mode and is cut in lenient mode. Under
  the collation, the case of the letters A to Z and trailing spaces do not count. The
  store is the seed of \<^verbatim>\<open>hospital.mysql.sql\<close>: five patients and bill 1 with its two
  items, the total already recomputed by the \<^verbatim>\<open>UPDATE\<close> at the end of the script.
\<close>

definition mysql :: "bool \<Rightarrow> engine" where
  "mysql strct =
     \<lparr>toUpperCase = upper_basic,
      strict = strct,
      round_frac = round_half_away,
      nonfinite = (\<lambda>_. None),
      date_col = Some,
      varchar = (\<lambda>n s. if length s \<le> n then Some s
                        else if strct then None
                        else Some (take n s)),
      collation_key = (\<lambda>s. toLowerCase (rev (dropWhile (\<lambda>u. u = 0x20) (rev s))))\<rparr>"

definition seed_store :: store where
  "seed_store =
     \<lparr>patients = [1, 2, 3, 4, 5],
      bills = [\<lparr>b_id = 1, b_patient_id = 1, b_bill_no = utf16 ''BILL-2026-0001'',
                b_bill_date = utf16 ''2026-11-03'', b_currency = utf16 ''DZD'',
                b_total_amount = 430000\<rparr>],
      billing_items =
        [\<lparr>i_id = 1, i_bill_id = 1, i_description = utf16 ''Consultation fee'', i_qty = 1,
          i_unit_price = 250000\<rparr>,
         \<lparr>i_id = 2, i_bill_id = 1, i_description = utf16 ''ECG'', i_qty = 1,
          i_unit_price = 180000\<rparr>],
      next_bill_id = 2,
      next_item_id = 3\<rparr>"

definition a_clock :: clock where
  "a_clock = \<lparr>year = 2026, now_ms = 1793700123456, curdate = utf16 ''2026-11-03''\<rparr>"

definition a_bill :: "jsval \<Rightarrow> jsval \<Rightarrow> bill_body" where
  "a_bill pid cur = \<lparr>patient_id = pid, currency = cur, bill_no = Undefined, bill_date = Undefined\<rparr>"

definition an_item :: "jsval \<Rightarrow> jsval \<Rightarrow> jsval \<Rightarrow> item_body" where
  "an_item bid q price =
     \<lparr>bill_id = bid, description = Str (utf16 ''Scan''), qty = q, unit_price = price\<rparr>"

definition some_appointments :: "appointment list" where
  "some_appointments =
     [\<lparr>appt_date = utf16 ''2026-11-04'', appt_time = 32400, appt_room = None,
       appt_status = utf16 ''pending'', doctor_name = utf16 ''Dr. Meriem A.'',
       department_name = utf16 ''Orthopedics''\<rparr>,
      \<lparr>appt_date = utf16 ''2026-11-03'', appt_time = 34200, appt_room = Some (utf16 ''B-12''),
       appt_status = utf16 ''confirmed'', doctor_name = utf16 ''Dr. Selim R.'',
       department_name = utf16 ''Cardiology''\<rparr>]"

definition some_requests :: "request list" where
  "some_requests =
     [Create_bill a_clock (a_bill (Num (Fin 2)) (Str (utf16 ''dzd''))),
      Add_item (an_item (Num (Fin 2)) (Num (Fin 3)) (Str (utf16 ''19.99''))),
      Add_item (an_item (Str (utf16 ''1'')) (Num (Fin 2)) (Num (Fin (1 / 2))))]"

definition a_large_item :: item_body where
  "a_large_item = an_item (Num (Fin 1)) (Num (Fin 1000)) (Num (Fin 100000))"

text \<open>
  A currency with white space around it, the first of it a no-break space, and one whose
  upper-casing is longer than the string.
\<close>

definition padded_currency :: jsval where
  "padded_currency = Str (0xA0 # utf16 '' usDollar  '')"

definition sharp_s_currency :: jsval where
  "sharp_s_currency = Str (0xDF # utf16 ''ab'')"

section \<open>Properties\<close>

subsection \<open>Evaluation on concrete requests\<close>

lemma string_of_nat_numeral:
  "string_of_nat (numeral k) =
     (if numeral k < (10::nat) then [digit_char (numeral k)]
      else string_of_nat (numeral k div 10) @ [digit_char (numeral k mod 10)])"
  by (rule string_of_nat.simps)

lemma string_of_nat_small:
  "string_of_nat 0 = [48]" "string_of_nat 1 = [49]" "string_of_nat (Suc 0) = [49]"
  by (simp_all add: string_of_nat.simps digit_char_def)

lemma bit_length_numeral: "bit_length (numeral k) = 1 + bit_length (numeral k div 2)"
  by (subst bit_length.simps) simp

lemma bit_length_small: "bit_length 0 = 0" "bit_length 1 = 1" "bit_length (Suc 0) = 1"
  by (simp_all add: bit_length.simps)

lemmas eval_string =
  string_of_nat_numeral string_of_nat_small digit_char_def string_of_int_def slice_last_def
  trim_def is_ws_def toLowerCase_def lower_unit_def utf16_def code_unit_def upper_basic_def

lemma floor_rat_numeral:
  "\<lfloor>numeral a / numeral b :: rat\<rfloor> = numeral a div numeral b"
  "\<lfloor>1 / numeral b :: rat\<rfloor> = 1 div numeral b"
  "\<lfloor>- (numeral a / numeral b) :: rat\<rfloor> = - numeral a div numeral b"
  "\<lfloor>- (1 / numeral b) :: rat\<rfloor> = - 1 div numeral b"
proof -
  show "\<lfloor>numeral a / numeral b :: rat\<rfloor> = numeral a div numeral b"
    using floor_divide_of_int_eq [of "numeral a" "numeral b", where ?'a = rat] by simp
  show "\<lfloor>1 / numeral b :: rat\<rfloor> = 1 div numeral b"
    using floor_divide_of_int_eq [of 1 "numeral b", where ?'a = rat] by simp
  show "\<lfloor>- (numeral a / numeral b) :: rat\<rfloor> = - numeral a div numeral b"
    using floor_divide_of_int_eq [of "- numeral a" "numeral b", where ?'a = rat] by simp
  show "\<lfloor>- (1 / numeral b) :: rat\<rfloor> = - 1 div numeral b"
    using floor_divide_of_int_eq [of "- 1" "numeral b", where ?'a = rat] by simp
qed

lemma ceiling_rat_numeral:
  "\<lceil>numeral a / numeral b :: rat\<rceil> = - (- numeral a div numeral b)"
  "\<lceil>1 / numeral b :: rat\<rceil> = - (- 1 div numeral b)"
  by (simp_all add: ceiling_def floor_rat_numeral)

lemmas eval_number =
  StringToNumber_def radix_of_def unsigned_decimal_def exponent_part_def is_digit_def
  is_radix_digit_def digit_value_def digits_value_def pow10_def js_or_def js_not_def
  Math_min_def Math_max_def binary64_def floor_log2_def pow2_def round_half_even_def
  bit_length_numeral bit_length_small floor_rat_numeral ceiling_rat_numeral

lemmas eval_engine =
  floor_rat_numeral mysql_def clip_def to_int_def int_column_def decimal_column_def DECIMAL_10_2_MAX_def
  round_half_away_def ROUND2_def decimal_assign_def where_eq_def binds_def
  line_amount_def items_of_def item_sum_def

lemmas eval_handlers =
  generateBillNo_def bill_patient_id_def bill_currency_def bill_billNo_def bill_billDate_def
  insert_bill_def post_billing_def item_billId_def item_description_def item_qty_def
  item_unitPrice_def insert_item_def recompute_def update_total_def post_billing_items_def
  select_item_def get_billing_items_def list_limit_def sql_limit_def select_limited_def
  get_patients_def get_doctors_def dayQ_def select_appointments_def get_appointments_def

lemmas eval_data =
  seed_store_def a_clock_def a_bill_def an_item_def padded_currency_def sharp_s_currency_def
  Let_def

subsection \<open>Coercions\<close>

lemma js_not_iff: "js_not n \<longleftrightarrow> n = NaN \<or> n = Fin 0"
  by (simp add: js_not_def)

lemma Number_js_or_zero:
  "Number v = Fin 0 \<or> \<not> truthy v \<Longrightarrow> Number (js_or v (Num (Fin 0))) = Fin 0"
  by (auto simp: js_or_def)

lemma billId_coercion:
  "Number (js_or (query q) (Num (Fin 0)))
     = (case q of None \<Rightarrow> Fin 0 | Some str \<Rightarrow> StringToNumber str)"
  by (cases q) (auto simp: js_or_def StringToNumber_def trim_def)

lemma billId_of_string: "Number (js_or (Str str) (Num (Fin 0))) = StringToNumber str"
  using billId_coercion [of "Some str"] by simp

lemma billId_absent: "Number (js_or Undefined (Num (Fin 0))) = Fin 0"
  by (simp add: js_or_def)

lemma where_eq_whole: "where_eq (Fin (of_int n)) k \<longleftrightarrow> k = n"
  by (auto simp: where_eq_def)

subsection \<open>The rounding to a double\<close>

text \<open>Whole numbers below \<open>2 ^ 53\<close> are doubles.\<close>

lemma bit_length_le: "n < 2 ^ k \<Longrightarrow> bit_length n \<le> k"
proof (induction k arbitrary: n)
  case 0
  then show ?case by (simp add: bit_length.simps)
next
  case (Suc k)
  show ?case
  proof (cases "n = 0")
    case True
    then show ?thesis by (simp add: bit_length.simps)
  next
    case False
    from Suc.prems have "n div 2 < 2 ^ k" by simp
    then have "bit_length (n div 2) \<le> k" by (rule Suc.IH)
    with False show ?thesis by (subst bit_length.simps) simp
  qed
qed

lemma bit_length_pos: "0 < n \<Longrightarrow> 0 < bit_length n"
  by (subst bit_length.simps) simp

lemma bit_length_bounds:
  "0 < n \<Longrightarrow> 2 ^ (bit_length n - 1) \<le> n \<and> n < 2 ^ bit_length n"
proof (induction n rule: bit_length.induct)
  case (1 n)
  then have s: "bit_length n = 1 + bit_length (n div 2)"
    by (subst bit_length.simps) simp
  show ?case
  proof (cases "n div 2 = 0")
    case True
    with 1(2) have "n = 1" by (simp add: div_eq_0_iff) 
    then show ?thesis by (simp add: bit_length_small)
  next
    case False
    with 1 have ih: "2 ^ (bit_length (n div 2) - 1) \<le> n div 2" "n div 2 < 2 ^ bit_length (n div 2)"
      by simp_all
    from False have "0 < bit_length (n div 2)"
      by (simp add: bit_length_pos)
    then have "(2::nat) ^ bit_length (n div 2) = 2 * 2 ^ (bit_length (n div 2) - 1)"
      by (cases "bit_length (n div 2)") simp_all
    also have "\<dots> \<le> 2 * (n div 2)"
      using ih(1) by simp
    also have "\<dots> \<le> n"
      by simp
    finally have "2 ^ bit_length (n div 2) \<le> n" .
    moreover have "n < 2 * 2 ^ bit_length (n div 2)"
      using ih(2) by linarith
    ultimately show ?thesis
      by (simp add: s)
  qed
qed

lemma floor_log2_bounds:
  assumes "0 < a"
  shows "pow2 (floor_log2 a) \<le> a \<and> a < pow2 (floor_log2 a + 1)"
proof (cases "1 \<le> a")
  case True
  define n where "n = nat \<lfloor>a\<rfloor>"
  define B where "B = bit_length n"
  from True have n: "0 < n" "of_nat n \<le> a" "a < of_nat n + 1"
    unfolding n_def by (simp_all add: le_nat_floor) linarith+
  from bit_length_bounds [OF n(1)] have b: "2 ^ (B - 1) \<le> n" "n < 2 ^ B"
    by (simp_all add: B_def)
  from n(1) have Bp: "0 < B"
    unfolding B_def by (rule bit_length_pos)
  have fl: "floor_log2 a = int B - 1"
    using True by (simp add: floor_log2_def B_def n_def)
  have "(2::rat) ^ (B - 1) \<le> of_nat n"
    using b(1) by (metis of_nat_le_iff of_nat_numeral of_nat_power)
  with n(2) have lo: "(2::rat) ^ (B - 1) \<le> a"
    by linarith
  have "n + 1 \<le> 2 ^ B"
    using b(2) by simp
  then have "of_nat (n + 1) \<le> (2::rat) ^ B"
    by (metis of_nat_le_iff of_nat_numeral of_nat_power)
  with n(3) have hi: "a < (2::rat) ^ B"
    by simp
  from Bp have "nat (int B - 1) = B - 1" "nat (int B) = B" "0 \<le> int B - 1"
    by simp_all
  with lo hi show ?thesis
    by (simp add: fl pow2_def)
next
  case False
  define c where "c = \<lceil>1 / a\<rceil>"
  define k where "k = nat (c - 1)"
  define B where "B = bit_length k"
  from False assms have inv: "1 < 1 / a"
    by (simp add: field_simps)
  then have c2: "2 \<le> c"
    unfolding c_def by linarith
  then have k: "0 < k" "int k = c - 1"
    by (simp_all add: k_def)
  from bit_length_bounds [OF k(1)] have b: "2 ^ (B - 1) \<le> k" "k < 2 ^ B"
    by (simp_all add: B_def)
  from k(1) have Bp: "0 < B"
    unfolding B_def by (rule bit_length_pos)
  have fl: "floor_log2 a = - int B"
    using False by (simp add: floor_log2_def B_def k_def c_def)
  from b(2) have "int k < 2 ^ B"
    by (metis of_nat_less_iff of_nat_numeral of_nat_power)
  with k(2) have "c \<le> 2 ^ B"
    by simp
  then have "1 / a \<le> 2 ^ B"
    unfolding c_def by (simp add: ceiling_le_iff)
  with assms have lo: "1 / 2 ^ B \<le> a"
    by (simp add: field_simps)
  from b(1) have "2 ^ (B - 1) \<le> int k"
    by (metis of_nat_le_iff of_nat_numeral of_nat_power)
  with k(2) have "2 ^ (B - 1) < c"
    by simp
  then have "2 ^ (B - 1) < 1 / a"
    unfolding c_def by (simp add: less_ceiling_iff)
  with assms have hi: "a < 1 / 2 ^ (B - 1)"
    by (simp add: field_simps)
  from Bp have e: "nat (int B - 1) = B - 1" "\<not> 0 \<le> - int B"
    by simp_all
  show ?thesis
  proof (cases "B = 1")
    case True
    with lo hi show ?thesis by (simp add: fl pow2_def)
  next
    case False
    with Bp have "\<not> 0 \<le> - int B + 1" "nat (int B - 1) = B - 1"
      by simp_all
    with lo hi Bp show ?thesis
      by (simp add: fl pow2_def)
  qed
qed

lemma round_half_even_of_int: "round_half_even (of_int m) = m"
  by (simp add: round_half_even_def)

lemma round_half_even_nearest:
  "\<bar>of_int (round_half_even y) - y\<bar> \<le> 1 / 2
   \<and> (\<bar>of_int (round_half_even y) - y\<bar> = 1 / 2 \<longrightarrow> even (round_half_even y))"
proof -
  define n where "n = \<lfloor>y\<rfloor>"
  define f where "f = y - of_int n"
  have f: "0 \<le> f" "f < 1" "y = of_int n + f"
    unfolding f_def n_def by linarith+
  have r: "round_half_even y =
      (if f < 1 / 2 then n else if 1 / 2 < f then n + 1 else if even n then n else n + 1)"
    unfolding round_half_even_def Let_def f_def n_def by (rule refl)
  consider "f < 1 / 2" | "1 / 2 < f" | "f = 1 / 2" "even n" | "f = 1 / 2" "odd n"
    by fastforce
  then show ?thesis
  proof cases
    case 1
    then have "round_half_even y = n"
      by (simp add: r)
    with 1 f show ?thesis by simp
  next
    case 2
    then have "round_half_even y = n + 1"
      by (simp add: r)
    with 2 f show ?thesis by simp
  next
    case 3
    then have "round_half_even y = n"
      by (simp add: r)
    with 3 f show ?thesis by simp
  next
    case 4
    then have "round_half_even y = n + 1"
      by (simp add: r)
    with 4 f show ?thesis by simp
  qed
qed

lemma binary64_of_nat:
  assumes "n < 2 ^ 53"
  shows "binary64 (of_nat n) = Fin (of_nat n)"
proof (cases "n = 0")
  case True
  then show ?thesis by (simp add: binary64_def)
next
  case False
  define B where "B = bit_length n"
  define k where "k = 53 - B"
  from assms have le: "B \<le> 53"
    unfolding B_def by (rule bit_length_le)
  let ?a = "of_nat n :: rat"
  from False have one: "1 \<le> ?a" by simp
  have fl: "floor_log2 ?a = int B - 1"
    using one by (simp add: floor_log2_def B_def)
  have ulp: "pow2 (int B - 1 - 52) = 1 / 2 ^ k"
    using le by (auto simp: pow2_def k_def nat_diff_distrib)
  have "?a / (1 / 2 ^ k) = of_int (int n * 2 ^ k)"
    by simp
  then have r: "round_half_even (?a / (1 / 2 ^ k)) = int n * 2 ^ k"
    by (simp only: round_half_even_of_int)
  have v: "of_int (round_half_even (?a / (1 / 2 ^ k))) * (1 / 2 ^ k) = ?a"
    unfolding r by simp
  have "?a < 2 ^ 53"
    using assms by (metis of_nat_less_iff of_nat_numeral of_nat_power)
  then have big: "\<not> 2 ^ 1024 \<le> ?a"
    by simp
  have sub: "\<not> ?a < 1 / 2 ^ 1022"
    using one by (simp add: field_simps)
  have nz: "?a \<noteq> 0" "\<not> ?a < 0" "\<bar>?a\<bar> = ?a"
    using one by simp_all
  have "binary64 ?a = Fin (if ?a < 0 then - ?a else ?a)"
    unfolding binary64_def Let_def nz(3)
    by (simp only: nz(1) big sub fl ulp v if_False)
  with nz(2) show ?thesis
    by simp
qed

text \<open>
  One tenth is not a double and goes to the nearest one; \<open>2 ^ 53 + 1\<close> lies halfway
  between two doubles and goes to the even one, as does \<open>2 ^ 53 + 3\<close>; \<open>10 ^ 309\<close> is beyond
  the doubles; \<open>10 ^ (- 400)\<close> and \<open>2 * 10 ^ (- 324)\<close> are nearest to 0, and
  \<open>5 * 10 ^ (- 324)\<close> is nearest to the least positive double.
\<close>

lemma binary64_examples:
  "binary64 (1 / 10) = Fin (3602879701896397 / 2 ^ 55)"
  "binary64 (2 ^ 53 + 1) = Fin (2 ^ 53)"
  "binary64 (2 ^ 53 + 3) = Fin (2 ^ 53 + 4)"
  "binary64 (10 ^ 309) = PosInf"
  "binary64 (- (10 ^ 309)) = NegInf"
  "binary64 (1 / 10 ^ 400) = Fin 0"
  "binary64 (5 / 10 ^ 324) = Fin (1 / 2 ^ 1074)"
  "binary64 (2 / 10 ^ 324) = Fin 0"
  by (simp_all add: eval_number Let_def)

subsection \<open>Printing a whole number and reading it back\<close>

lemma digit_char_props:
  assumes "d < 10"
  shows "is_digit (digit_char d)" and "digit_value (digit_char d) = d"
  using assms by (simp_all add: digit_char_def is_digit_def digit_value_def)

lemma digits_value_snoc: "digits_value b (ds @ [c]) = digits_value b ds * b + digit_value c"
  by (simp add: digits_value_def)

lemma string_of_nat_props:
  "string_of_nat n \<noteq> [] \<and> list_all is_digit (string_of_nat n)
   \<and> digits_value 10 (string_of_nat n) = n"
proof (induction n rule: string_of_nat.induct)
  case (1 n)
  show ?case
  proof (cases "n < 10")
    case True
    then have "string_of_nat n = [digit_char n]"
      by (subst string_of_nat.simps) simp
    with digit_char_props [OF True] show ?thesis
      by (simp add: digits_value_def)
  next
    case False
    then have s: "string_of_nat n = string_of_nat (n div 10) @ [digit_char (n mod 10)]"
      by (subst string_of_nat.simps) simp
    have "n mod 10 < 10" by simp
    from digit_char_props [OF this] 1 [OF False] show ?thesis
      by (simp add: s digits_value_snoc)
  qed
qed

lemma is_digit_unit:
  assumes "is_digit u"
  shows "\<not> is_ws u" and "u \<noteq> code_unit CHR ''-''" and "u \<noteq> code_unit CHR ''+''"
    and "u \<noteq> code_unit CHR ''.''" and "u \<notin> code_unit ` set ''xXoObB''"
    and "u \<noteq> code_unit CHR ''I''"
  using assms by (auto simp: is_digit_def is_ws_def code_unit_def)

lemma dropWhile_none: "\<forall>x \<in> set xs. \<not> P x \<Longrightarrow> dropWhile P xs = xs"
  by (cases xs) auto

lemma trim_no_space: "\<forall>u \<in> set s. \<not> is_ws u \<Longrightarrow> trim s = s"
  by (simp add: trim_def dropWhile_none)

lemma radix_of_digits: "list_all is_digit ds \<Longrightarrow> radix_of ds = None"
proof (cases ds)
  case Nil
  then show ?thesis by (simp add: radix_of_def)
next
  case (Cons z r)
  assume a: "list_all is_digit ds"
  show ?thesis
  proof (cases r)
    case Nil
    with Cons show ?thesis by (simp add: radix_of_def)
  next
    case (Cons x r')
    with a \<open>ds = z # r\<close> have "is_digit x" by simp
    from is_digit_unit(5) [OF this] Cons \<open>ds = z # r\<close> show ?thesis
      by (simp add: radix_of_def)
  qed
qed

lemma unsigned_decimal_digits:
  assumes "ds \<noteq> []" and "list_all is_digit ds"
  shows "unsigned_decimal ds = binary64 (of_nat (digits_value 10 ds))"
proof -
  from assms have "is_digit (hd ds)"
    by (cases ds) simp_all
  then have "hd ds \<noteq> code_unit CHR ''I''"
    by (rule is_digit_unit(6))
  then have ne: "ds \<noteq> utf16 ''Infinity''"
    by (auto simp: utf16_def)
  from assms(2) have t: "takeWhile is_digit ds = ds" "dropWhile is_digit ds = []"
    by (simp_all add: list_all_iff)
  show ?thesis
    using ne assms(1)
    by (simp add: unsigned_decimal_def t exponent_part_def pow10_def)
qed

lemma StringToNumber_string_of_nat:
  assumes "n < 2 ^ 53"
  shows "StringToNumber (string_of_nat n) = Fin (of_nat n)"
proof -
  let ?s = "string_of_nat n"
  from string_of_nat_props [of n]
  have p: "?s \<noteq> []" "list_all is_digit ?s" "digits_value 10 ?s = n"
    by simp_all
  from p(2) have "\<forall>u \<in> set ?s. \<not> is_ws u"
    by (auto simp: list_all_iff dest: is_digit_unit(1))
  then have tr: "trim ?s = ?s"
    by (rule trim_no_space)
  from p(1,2) have "is_digit (hd ?s)"
    by (cases ?s) simp_all
  then have hd: "hd ?s \<noteq> code_unit CHR ''-''" "hd ?s \<noteq> code_unit CHR ''+''"
    by (rule is_digit_unit(2), rule is_digit_unit(3))
  show ?thesis
    using p(1) hd
    by (simp add: StringToNumber_def tr radix_of_digits [OF p(2)]
        unsigned_decimal_digits [OF p(1,2)] p(3) binary64_of_nat [OF assms])
qed

lemma StringToNumber_string_of_int:
  assumes "\<bar>i\<bar> < 2 ^ 53"
  shows "StringToNumber (string_of_int i) = Fin (of_int i)"
proof (cases "i < 0")
  case False
  with assms have "nat i < 2 ^ 53"
    by (simp add: nat_less_iff)
  from StringToNumber_string_of_nat [OF this] False show ?thesis
    by (simp add: string_of_int_def)
next
  case True
  let ?ds = "string_of_nat (nat (- i))"
  let ?m = "code_unit CHR ''-''"
  from True assms have b: "nat (- i) < 2 ^ 53"
    by (simp add: nat_less_iff)
  from string_of_nat_props [of "nat (- i)"]
  have p: "?ds \<noteq> []" "list_all is_digit ?ds" "digits_value 10 ?ds = nat (- i)"
    by simp_all
  from p(2) have "\<forall>u \<in> set ?ds. \<not> is_ws u"
    by (auto simp: list_all_iff dest: is_digit_unit(1))
  moreover have "\<not> is_ws ?m"
    by (simp add: is_ws_def code_unit_def)
  ultimately have "\<forall>u \<in> set (?m # ?ds). \<not> is_ws u"
    by simp
  then have tr: "trim (?m # ?ds) = ?m # ?ds"
    by (rule trim_no_space)
  have rx: "radix_of (?m # ?ds) = None"
    by (simp add: radix_of_def code_unit_def split: list.splits)
  from binary64_of_nat [OF b] True have bn: "binary64 (- of_int i) = Fin (- of_int i)"
    by simp
  show ?thesis
    using True
    by (simp add: string_of_int_def StringToNumber_def tr rx
        unsigned_decimal_digits [OF p(1,2)] p(3) bn)
qed

lemma billId_of_decimal:
  "\<bar>n\<bar> < 2 ^ 53 \<Longrightarrow> Number (js_or (query (Some (string_of_int n))) (Num (Fin 0))) = Fin (of_int n)"
  by (simp add: billId_of_string StringToNumber_string_of_int)

subsection \<open>Rounding to two decimals\<close>

lemma round_half_away_of_int: "round_half_away (of_int k) = k"
  by (simp add: round_half_away_def) linarith+

lemma ROUND2_hundredths: "ROUND2 (of_int k / 100) = k"
  using round_half_away_of_int [of k] by (simp add: ROUND2_def)

lemma ROUND2_0: "ROUND2 0 = 0"
  using ROUND2_hundredths [of 0] by simp

lemma line_amount_hundredths: "line_amount i = of_int (i_qty i * i_unit_price i) / 100"
  by (simp add: line_amount_def)

lemma ROUND2_line_amount: "ROUND2 (line_amount i) = i_qty i * i_unit_price i"
  by (simp only: line_amount_hundredths ROUND2_hundredths)

subsection \<open>Validation of POST /api/billing\<close>

text \<open>
  C8. A request to create a bill whose patient id is missing (absent or \<^verbatim>\<open>null\<close>) or
  coerces to zero is answered 400 with \<^verbatim>\<open>patient_id is required\<close>, and the store
  after the request is the store before it: no statement has run.
\<close>

theorem post_billing_missing_patient:
  assumes "patient_id body = Undefined \<or> patient_id body = Null \<or> Number (patient_id body) = Fin 0"
  shows "post_billing eng clk body s = ((400, Error ''patient_id is required''), s)"
proof -
  have "Number (patient_id body) = Fin 0 \<or> \<not> truthy (patient_id body)"
    using assms by auto
  then have "bill_patient_id body = Fin 0"
    unfolding bill_patient_id_def by (rule Number_js_or_zero)
  then show ?thesis
    by (simp add: post_billing_def js_not_iff)
qed

theorem post_billing_missing_patient_witness:
  "post_billing (mysql True) a_clock (a_bill Undefined (Str (utf16 ''dzd''))) seed_store
     = ((400, Error ''patient_id is required''), seed_store)
   \<and> post_billing (mysql True) a_clock (a_bill (Num (Fin 0)) (Str (utf16 ''dzd''))) seed_store
     = ((400, Error ''patient_id is required''), seed_store)"
  using post_billing_missing_patient [of "a_bill Undefined (Str (utf16 ''dzd''))" "mysql True" a_clock seed_store]
    post_billing_missing_patient [of "a_bill (Num (Fin 0)) (Str (utf16 ''dzd''))" "mysql True" a_clock seed_store]
  by (simp add: a_bill_def)

subsection \<open>The quantity of an item\<close>

text \<open>
  C2. The quantity that the handler binds to the \<^verbatim>\<open>INSERT\<close> is
  \<^verbatim>\<open>Math.max(1, Math.min(100000, Number(body.qty || 1)))\<close>. For a quantity that is not
  numeric, such as the string \<^verbatim>\<open>abc\<close>, the coercion is \<open>NaN\<close>, both \<^verbatim>\<open>Math.min\<close> and
  \<^verbatim>\<open>Math.max\<close> hand \<open>NaN\<close> on, and the handler binds \<open>NaN\<close> instead of a quantity
  between 1 and 100000; on a server that rejects such a parameter the request ends in the
  \<^verbatim>\<open>catch\<close> with status 500 and nothing is stored.
\<close>

theorem item_qty_not_clamped:
  "item_qty (an_item (Num (Fin 1)) (Str (utf16 ''abc'')) (Num (Fin 10))) = NaN
   \<and> post_billing_items (mysql True) (an_item (Num (Fin 1)) (Str (utf16 ''abc'')) (Num (Fin 10))) seed_store
       = ((500, Database_error), seed_store)"
  by (simp add: eval_string eval_number eval_engine eval_handlers eval_data)

theorem item_qty_not_clamped_witness:
  "item_qty (an_item (Num (Fin 1)) (Str (utf16 ''abc'')) (Num (Fin 10))) \<noteq> Fin 1
   \<and> fst (fst (post_billing_items (mysql True)
                   (an_item (Num (Fin 1)) (Str (utf16 ''abc'')) (Num (Fin 10))) seed_store)) = 500"
  using item_qty_not_clamped by simp

lemma clamp_finite:
  "Math_max (Fin 1) (Math_min (Fin 100000) (Fin x)) = Fin (max 1 (min 100000 x))"
  by (auto simp: Math_max_def Math_min_def max_def min_def)

lemma clamp_cases:
  "Math_max (Fin 1) (Math_min (Fin 100000) n) =
     (case n of NaN \<Rightarrow> NaN | NegInf \<Rightarrow> Fin 1 | PosInf \<Rightarrow> Fin 100000
      | Fin x \<Rightarrow> Fin (max 1 (min 100000 x)))"
  by (cases n) (auto simp: Math_max_def Math_min_def max_def min_def)

lemma int_column_in_range:
  assumes "1 \<le> x" and "x \<le> 100000"
    and "\<lfloor>x\<rfloor> \<le> round_frac eng x" and "round_frac eng x \<le> \<lceil>x\<rceil>"
  shows "\<exists>n. int_column eng (Fin x) = Some n \<and> 1 \<le> n \<and> n \<le> 100000"
proof -
  have lo: "1 \<le> \<lfloor>x\<rfloor>" using assms(1) by linarith
  have hi: "\<lceil>x\<rceil> \<le> 100000" using assms(2) by linarith
  have "1 \<le> to_int eng x \<and> to_int eng x \<le> 100000"
  proof (cases "of_int \<lfloor>x\<rfloor> = x")
    case True
    then have "to_int eng x = \<lfloor>x\<rfloor>" unfolding to_int_def by (rule if_P)
    moreover have "\<lfloor>x\<rfloor> \<le> \<lceil>x\<rceil>" by linarith
    ultimately show ?thesis using lo hi by linarith
  next
    case False
    then have "to_int eng x = round_frac eng x" unfolding to_int_def by (rule if_not_P)
    then show ?thesis using lo hi assms(3,4) by linarith
  qed
  then show ?thesis
    by (simp add: int_column_def clip_def)
qed

text \<open>
  The quantity clamp on numbers. When the coerced quantity is a number, the value bound to
  the \<^verbatim>\<open>INSERT\<close> is that number clamped into 1 to 100000 (an infinity goes to the
  nearer bound); the handler does not make it whole, the \<^verbatim>\<open>INT\<close> column does, and
  whichever way the server rounds, the stored quantity is a whole number from 1 to 100000.
  A missing or zero quantity is taken as 1, and so is a negative one.
\<close>

theorem item_qty_in_range:
  "item_qty body =
     (case Number (js_or (qty body) (Num (Fin 1))) of
        NaN \<Rightarrow> NaN | NegInf \<Rightarrow> Fin 1 | PosInf \<Rightarrow> Fin 100000
      | Fin x \<Rightarrow> Fin (max 1 (min 100000 x)))
   \<and> (item_qty body = Fin y \<longrightarrow> 1 \<le> y \<and> y \<le> 100000)
   \<and> (item_qty body = Fin y \<and> \<lfloor>y\<rfloor> \<le> round_frac eng y \<and> round_frac eng y \<le> \<lceil>y\<rceil>
        \<longrightarrow> (\<exists>n. int_column eng (item_qty body) = Some n \<and> 1 \<le> n \<and> n \<le> 100000))
   \<and> (\<not> truthy (qty body) \<longrightarrow> item_qty body = Fin 1)
   \<and> (Number (qty body) = Fin x \<and> x \<le> 0 \<longrightarrow> item_qty body = Fin 1)"
proof -
  have a: "item_qty body =
     (case Number (js_or (qty body) (Num (Fin 1))) of
        NaN \<Rightarrow> NaN | NegInf \<Rightarrow> Fin 1 | PosInf \<Rightarrow> Fin 100000
      | Fin x \<Rightarrow> Fin (max 1 (min 100000 x)))"
    unfolding item_qty_def by (rule clamp_cases)
  have b: "1 \<le> y \<and> y \<le> 100000" if "item_qty body = Fin y"
    using that unfolding a by (auto split: jsnum.splits)
  have c: "\<exists>n. int_column eng (item_qty body) = Some n \<and> 1 \<le> n \<and> n \<le> 100000"
    if "item_qty body = Fin y" "\<lfloor>y\<rfloor> \<le> round_frac eng y" "round_frac eng y \<le> \<lceil>y\<rceil>"
    using int_column_in_range [of y eng] b [OF that(1)] that by simp
  have d: "item_qty body = Fin 1" if "\<not> truthy (qty body)"
    using that by (simp add: a js_or_def)
  have e: "item_qty body = Fin 1" if "Number (qty body) = Fin x" "x \<le> 0"
    using that by (auto simp: a js_or_def max_def min_def)
  from a b c d e show ?thesis by blast
qed

theorem item_qty_in_range_witness:
  "item_qty (an_item (Num (Fin 1)) (Num (Fin (5 / 2))) (Num (Fin 10))) = Fin (5 / 2)
   \<and> int_column (mysql True) (item_qty (an_item (Num (Fin 1)) (Num (Fin (5 / 2))) (Num (Fin 10)))) = Some 3
   \<and> item_qty (an_item (Num (Fin 1)) (Num (Fin 0)) (Num (Fin 10))) = Fin 1
   \<and> item_qty (an_item (Num (Fin 1)) (Num (Fin (- 4))) (Num (Fin 10))) = Fin 1
   \<and> item_qty (an_item (Num (Fin 1)) (Str (utf16 ''1e9'')) (Num (Fin 10))) = Fin 100000"
  using item_qty_in_range [of "an_item (Num (Fin 1)) (Num (Fin (5 / 2))) (Num (Fin 10))" "5 / 2" "mysql True" 0]
    item_qty_in_range [of "an_item (Num (Fin 1)) (Num (Fin 0)) (Num (Fin 10))" 1 "mysql True" 0]
    item_qty_in_range [of "an_item (Num (Fin 1)) (Num (Fin (- 4))) (Num (Fin 10))" 1 "mysql True" "- 4"]
  by (simp add: eval_string eval_number eval_engine an_item_def item_qty_def)

subsection \<open>The currency of a new bill\<close>

lemma create_bill_example:
  "post_billing (mysql True) a_clock (a_bill (Num (Fin 1)) (Str (utf16 ''dzd''))) seed_store =
     ((201, Json (2, utf16 ''BILL-2026-123456'')),
      seed_store\<lparr>bills := bills seed_store @
                    [\<lparr>b_id = 2, b_patient_id = 1, b_bill_no = utf16 ''BILL-2026-123456'',
                      b_bill_date = utf16 ''2026-11-03'', b_currency = utf16 ''DZD'',
                      b_total_amount = 0\<rparr>],
                  next_bill_id := 3\<rparr>)"
  by (simp add: eval_string eval_number eval_engine eval_handlers eval_data)

lemma create_bill_padded:
  "post_billing (mysql True) a_clock (a_bill (Num (Fin 1)) padded_currency) seed_store =
     ((201, Json (2, utf16 ''BILL-2026-123456'')),
      seed_store\<lparr>bills := bills seed_store @
                    [\<lparr>b_id = 2, b_patient_id = 1, b_bill_no = utf16 ''BILL-2026-123456'',
                      b_bill_date = utf16 ''2026-11-03'', b_currency = utf16 ''USD'',
                      b_total_amount = 0\<rparr>],
                  next_bill_id := 3\<rparr>)"
  by (simp add: eval_string eval_number eval_engine eval_handlers eval_data)

text \<open>
  What \<^verbatim>\<open>trim\<close> leaves of a string: the string is white space, then the result, then
  white space, and the result neither begins nor ends with white space.
\<close>

lemma trim_decomposition:
  "\<exists>l r. s = l @ trim s @ r \<and> list_all is_ws l \<and> list_all is_ws r
         \<and> (trim s = [] \<or> (\<not> is_ws (hd (trim s)) \<and> \<not> is_ws (last (trim s))))"
proof -
  define l where "l = takeWhile is_ws s"
  define t where "t = dropWhile is_ws s"
  define r where "r = rev (takeWhile is_ws (rev t))"
  have m: "trim s = rev (dropWhile is_ws (rev t))"
    by (simp add: trim_def t_def)
  have s: "s = l @ t"
    by (simp add: l_def t_def)
  have "trim s @ r = rev (takeWhile is_ws (rev t) @ dropWhile is_ws (rev t))"
    by (simp only: m r_def rev_append)
  then have t: "t = trim s @ r"
    by simp
  have wl: "list_all is_ws l"
    by (auto simp: l_def list_all_iff dest: set_takeWhileD)
  have wr: "list_all is_ws r"
    by (auto simp: r_def list_all_iff dest: set_takeWhileD)
  have ends: "\<not> is_ws (hd (trim s)) \<and> \<not> is_ws (last (trim s))" if ne: "trim s \<noteq> []"
  proof
    from ne t have "t \<noteq> []" "hd (trim s) = hd t"
      by auto
    then show "\<not> is_ws (hd (trim s))"
      unfolding t_def by (simp add: hd_dropWhile)
    from ne have "dropWhile is_ws (rev t) \<noteq> []"
      by (simp add: m)
    then have "\<not> is_ws (hd (dropWhile is_ws (rev t)))"
      by (rule hd_dropWhile)
    moreover have "last (trim s) = hd (dropWhile is_ws (rev t))"
      unfolding m by (rule last_rev)
    ultimately show "\<not> is_ws (last (trim s))"
      by simp
  qed
  from s t wl wr ends show ?thesis
    by auto
qed

lemma trim_unique:
  assumes "s = l @ m @ r" and "list_all is_ws l" and "list_all is_ws r"
    and "m = [] \<or> (\<not> is_ws (hd m) \<and> \<not> is_ws (last m))"
  shows "trim s = m"
proof (cases "m = []")
  case True
  with assms(1-3) have "\<forall>u \<in> set s. is_ws u"
    by (auto simp: list_all_iff)
  then have d: "dropWhile is_ws s = []"
    by (metis dropWhile_eq_Nil_conv)
  have "trim s = []"
    unfolding trim_def d by simp
  with True show ?thesis
    by simp
next
  case False
  with assms(4) have e: "\<not> is_ws (hd m)" "\<not> is_ws (last m)"
    by simp_all
  have wl: "\<And>u. u \<in> set l \<Longrightarrow> is_ws u" and wr: "\<And>u. u \<in> set (rev r) \<Longrightarrow> is_ws u"
    using assms(2,3) by (simp_all add: list_all_iff)
  from False e(1) obtain a m' where m: "m = a # m'" and a: "\<not> is_ws a"
    by (cases m) auto
  have "dropWhile is_ws (l @ a # m' @ r) = dropWhile is_ws (a # m' @ r)"
    using wl by (rule dropWhile_append2)
  with a have d: "dropWhile is_ws s = m @ r"
    by (simp add: assms(1) m)
  from False e(2) obtain m'' z where m2: "m = m'' @ [z]" and z: "\<not> is_ws z"
    by (cases m rule: rev_cases) auto
  have "dropWhile is_ws (rev r @ z # rev m'') = dropWhile is_ws (z # rev m'')"
    using wr by (rule dropWhile_append2)
  with z have "dropWhile is_ws (rev (m @ r)) = rev m"
    by (simp add: m2)
  then show ?thesis
    unfolding trim_def d by simp
qed

lemma bill_currency_cases:
  "bill_currency eng body =
     (if trim (str_of (currency body)) = [] then utf16 ''DZD''
      else toUpperCase eng (take 3 (trim (str_of (currency body)))))"
  by (cases "currency body") (simp_all add: bill_currency_def trim_def)

lemma insert_bill_currency:
  assumes "insert_bill eng clk pid no date cur s = (Some k, s')"
  shows "\<exists>b. bills s' = bills s @ [b] \<and> b_id b = k \<and> varchar eng 3 cur = Some (b_currency b)"
  using assms by (auto simp: insert_bill_def split: option.splits if_splits)

lemma insert_bill_currency_rejected:
  assumes "varchar eng 3 cur = None"
  shows "insert_bill eng clk pid no date cur s = (None, s)"
  using assms by (simp add: insert_bill_def split: option.splits)

text \<open>
  C6, as the code has it. The currency that the handler binds to the \<^verbatim>\<open>INSERT\<close>
  is made from the request currency as follows. Write the string as white space, then
  \<open>m\<close>, then white space, where \<open>m\<close> neither begins nor ends with white space (there is
  always such an \<open>m\<close>; for a field that is absent, \<^verbatim>\<open>null\<close> or not a string it is
  empty). When \<open>m\<close> is empty the currency is \<^verbatim>\<open>DZD\<close>; otherwise it is \<open>m\<close> cut to its
  first three code units and then upper-cased, so that \<^verbatim>\<open>dzd\<close> gives the upper-casing
  of \<^verbatim>\<open>dzd\<close>. When a bill is created, its row holds what the \<^verbatim>\<open>CHAR(3)\<close> column
  takes from that value, which is the value itself when the column keeps it; when the
  column rejects the value the request is answered 500 and nothing is stored.
  Upper-casing comes after the cut and can lengthen the value beyond the three characters
  of the column.
\<close>

theorem bill_currency_stored:
  "(str_of (currency body) = l @ m @ r \<and> list_all is_ws l \<and> list_all is_ws r
      \<and> (m = [] \<or> (\<not> is_ws (hd m) \<and> \<not> is_ws (last m)))
      \<longrightarrow> bill_currency eng body
            = (if m = [] then utf16 ''DZD'' else toUpperCase eng (take 3 m)))
   \<and> (\<exists>l m r. str_of (currency body) = l @ m @ r \<and> list_all is_ws l \<and> list_all is_ws r
        \<and> (m = [] \<or> (\<not> is_ws (hd m) \<and> \<not> is_ws (last m))))
   \<and> (currency body = Str (utf16 ''dzd'')
        \<longrightarrow> bill_currency eng body = toUpperCase eng (utf16 ''dzd''))
   \<and> (post_billing eng clk body s = ((201, Json (k, no)), s')
        \<longrightarrow> (\<exists>b. bills s' = bills s @ [b] \<and> b_id b = k
                 \<and> varchar eng 3 (bill_currency eng body) = Some (b_currency b)
                 \<and> (varchar eng 3 (bill_currency eng body) = Some (bill_currency eng body)
                      \<longrightarrow> b_currency b = bill_currency eng body)))
   \<and> (\<not> js_not (bill_patient_id body) \<and> varchar eng 3 (bill_currency eng body) = None
        \<longrightarrow> post_billing eng clk body s = ((500, Database_error), s))
   \<and> (currency body = Undefined \<or> currency body = Null \<or> currency body = Str []
        \<longrightarrow> bill_currency eng body = utf16 ''DZD'')"
proof -
  have a: "bill_currency eng body
            = (if m = [] then utf16 ''DZD'' else toUpperCase eng (take 3 m))"
    if "str_of (currency body) = l @ m @ r" "list_all is_ws l" "list_all is_ws r"
      "m = [] \<or> (\<not> is_ws (hd m) \<and> \<not> is_ws (last m))"
    using trim_unique [OF that] by (simp add: bill_currency_cases)
  from trim_decomposition [of "str_of (currency body)"]
  have a': "\<exists>l m r. str_of (currency body) = l @ m @ r \<and> list_all is_ws l \<and> list_all is_ws r
        \<and> (m = [] \<or> (\<not> is_ws (hd m) \<and> \<not> is_ws (last m)))"
    by blast
  have ex: "bill_currency eng body = toUpperCase eng (utf16 ''dzd'')"
    if "currency body = Str (utf16 ''dzd'')"
    using that by (simp add: bill_currency_def eval_string)
  have b: "\<exists>b. bills s' = bills s @ [b] \<and> b_id b = k
                 \<and> varchar eng 3 (bill_currency eng body) = Some (b_currency b)
                 \<and> (varchar eng 3 (bill_currency eng body) = Some (bill_currency eng body)
                      \<longrightarrow> b_currency b = bill_currency eng body)"
    if "post_billing eng clk body s = ((201, Json (k, no)), s')"
  proof -
    from that have "insert_bill eng clk (bill_patient_id body) (bill_billNo clk body)
        (bill_billDate body) (bill_currency eng body) s = (Some k, s')"
      by (auto simp: post_billing_def Let_def split: if_splits prod.splits option.splits)
    from insert_bill_currency [OF this] show ?thesis
      by auto
  qed
  have c: "post_billing eng clk body s = ((500, Database_error), s)"
    if "\<not> js_not (bill_patient_id body)" "varchar eng 3 (bill_currency eng body) = None"
    using that by (simp add: post_billing_def Let_def insert_bill_currency_rejected)
  have d: "bill_currency eng body = utf16 ''DZD''"
    if "currency body = Undefined \<or> currency body = Null \<or> currency body = Str []"
    using that by (auto simp: bill_currency_cases trim_def)
  from a a' ex b c d show ?thesis
    by blast
qed

text \<open>
  The currency \<^verbatim>\<open>usDollar\<close> between a no-break space, a space and two spaces is stored
  as \<^verbatim>\<open>USD\<close>, \<^verbatim>\<open>dzd\<close> as \<^verbatim>\<open>DZD\<close>, and a request without currency gets \<^verbatim>\<open>DZD\<close>.
\<close>

theorem bill_currency_stored_witness:
  "post_billing (mysql True) a_clock (a_bill (Num (Fin 1)) padded_currency) seed_store =
     ((201, Json (2, utf16 ''BILL-2026-123456'')),
      seed_store\<lparr>bills := bills seed_store @
                    [\<lparr>b_id = 2, b_patient_id = 1, b_bill_no = utf16 ''BILL-2026-123456'',
                      b_bill_date = utf16 ''2026-11-03'', b_currency = utf16 ''USD'',
                      b_total_amount = 0\<rparr>],
                  next_bill_id := 3\<rparr>)
   \<and> varchar (mysql True) 3 (bill_currency (mysql True) (a_bill (Num (Fin 1)) padded_currency))
       = Some (utf16 ''USD'')
   \<and> bill_currency (mysql True) (a_bill (Num (Fin 1)) (Str (utf16 ''dzd''))) = utf16 ''DZD''
   \<and> bill_currency (mysql True) (a_bill (Num (Fin 1)) Undefined) = utf16 ''DZD''"
proof -
  note t = bill_currency_stored [of "a_bill (Num (Fin 1)) padded_currency" "[0xA0, 0x20]"
      "utf16 ''usDollar''" "utf16 ''  ''" "mysql True" a_clock seed_store
      2 "utf16 ''BILL-2026-123456''"
      "seed_store\<lparr>bills := bills seed_store @
                    [\<lparr>b_id = 2, b_patient_id = 1, b_bill_no = utf16 ''BILL-2026-123456'',
                      b_bill_date = utf16 ''2026-11-03'', b_currency = utf16 ''USD'',
                      b_total_amount = 0\<rparr>],
                  next_bill_id := 3\<rparr>"]
  from t [THEN conjunct1]
  have c: "bill_currency (mysql True) (a_bill (Num (Fin 1)) padded_currency) = utf16 ''USD''"
    by (simp add: eval_string a_bill_def padded_currency_def mysql_def)
  from t [THEN conjunct2, THEN conjunct2, THEN conjunct2, THEN conjunct1] create_bill_padded
  have "varchar (mysql True) 3 (bill_currency (mysql True) (a_bill (Num (Fin 1)) padded_currency))
       = Some (utf16 ''USD'')"
    by simp
  moreover have "bill_currency (mysql True) (a_bill (Num (Fin 1)) (Str (utf16 ''dzd''))) = utf16 ''DZD''"
    "bill_currency (mysql True) (a_bill (Num (Fin 1)) Undefined) = utf16 ''DZD''"
    by (simp_all add: eval_string bill_currency_def a_bill_def mysql_def)
  ultimately show ?thesis
    using create_bill_padded by simp
qed

text \<open>
  The currency \<^verbatim>\<open>U+00DF\<close> \<^verbatim>\<open>ab\<close> has three code units; upper-cased it is
  \<^verbatim>\<open>SSAB\<close>, which \<^verbatim>\<open>CHAR(3)\<close> does not hold. In strict mode the request is answered
  500 and no bill is stored; in lenient mode the bill is stored with the currency
  \<^verbatim>\<open>SSA\<close>, which is not the request currency cut to three characters and upper-cased.
\<close>

theorem currency_longer_than_column:
  "bill_currency (mysql True) (a_bill (Num (Fin 1)) sharp_s_currency) = utf16 ''SSAB''
   \<and> post_billing (mysql True) a_clock (a_bill (Num (Fin 1)) sharp_s_currency) seed_store
       = ((500, Database_error), seed_store)
   \<and> fst (post_billing (mysql False) a_clock (a_bill (Num (Fin 1)) sharp_s_currency) seed_store)
       = (201, Json (2, utf16 ''BILL-2026-123456''))
   \<and> map b_currency
        (bills (snd (post_billing (mysql False) a_clock (a_bill (Num (Fin 1)) sharp_s_currency)
                       seed_store)))
       = [utf16 ''DZD'', utf16 ''SSA'']"
  by (simp add: eval_string eval_number eval_engine eval_handlers eval_data)

subsection \<open>The row limit of GET /api/patients and GET /api/doctors\<close>








subsection \<open>The day filter of GET /api/appointments\<close>

lemma toLowerCase_today: "toLowerCase (utf16 ''today'') = (utf16 ''today'')"
  by (simp add: toLowerCase_def lower_unit_def utf16_def code_unit_def)

lemma dayQ_cases:
  "dayQ None = (utf16 ''today'')" "dayQ (Some d) = (if d = [] then (utf16 ''today'') else toLowerCase d)"
  by (simp_all add: dayQ_def js_or_def toLowerCase_today)

text \<open>
  C9. When the \<^verbatim>\<open>day\<close> parameter is absent, or is any string whose lower-casing is not
  \<^verbatim>\<open>all\<close> (\<^verbatim>\<open>today\<close>, the empty string, an unknown word), the response is built from
  the appointments of the current date only: the first 20 of them by time. When the
  lower-casing of the parameter is \<^verbatim>\<open>all\<close> the date is not looked at: the response is
  built from the first 20 of all appointments by time.
\<close>

theorem appointments_day_filter:
  "(day = None \<or> (\<exists>d. day = Some d \<and> toLowerCase d \<noteq> (utf16 ''all''))
      \<longrightarrow> get_appointments clk day shape appts =
            (200, Json (map shape (take 20 (sort_key appt_time
                                     (filter (\<lambda>a. appt_date a = curdate clk) appts)))))
          \<and> (\<forall>a \<in> set (select_appointments clk day appts). appt_date a = curdate clk))
   \<and> (toLowerCase d' = (utf16 ''all'')
        \<longrightarrow> get_appointments clk (Some d') shape appts =
              (200, Json (map shape (take 20 (sort_key appt_time appts)))))"
  by (auto simp: get_appointments_def select_appointments_def dayQ_cases toLowerCase_def
      utf16_def code_unit_def dest!: in_set_takeD split: if_splits)

theorem appointments_day_filter_witness:
  "get_appointments a_clock (Some (utf16 ''week'')) doctor_name some_appointments
     = (200, Json [(utf16 ''Dr. Selim R.'')])
   \<and> get_appointments a_clock None doctor_name some_appointments
     = (200, Json [(utf16 ''Dr. Selim R.'')])
   \<and> get_appointments a_clock (Some (utf16 ''ALL'')) doctor_name some_appointments
     = (200, Json [(utf16 ''Dr. Meriem A.''), (utf16 ''Dr. Selim R.'')])"
  using appointments_day_filter [of "Some (utf16 ''week'')" a_clock doctor_name some_appointments "(utf16 ''ALL'')"]
    appointments_day_filter [of None a_clock doctor_name some_appointments "(utf16 ''ALL'')"]
  by (simp add: eval_string some_appointments_def a_clock_def)

subsection \<open>Generated bill numbers\<close>

lemma bill_billNo_generated:
  "\<not> isNonEmptyString (bill_no body) \<Longrightarrow> bill_billNo clk body = generateBillNo clk"
  by (simp add: bill_billNo_def)

lemma insert_bill_bills:
  "insert_bill eng clk pid no date cur s = (r, s') \<Longrightarrow>
     (r = None \<and> bills s' = bills s)
     \<or> (\<exists>b no'. r = Some (b_id b) \<and> bills s' = bills s @ [b] \<and> varchar eng 60 no = Some no'
          \<and> b_bill_no b = no'
          \<and> collation_key eng no' \<notin> set (map (\<lambda>b. collation_key eng (b_bill_no b)) (bills s)))"
  by (auto simp: insert_bill_def split: option.splits if_splits)

lemma insert_bill_duplicate:
  assumes "varchar eng 60 no = Some no'"
    and "collation_key eng no' \<in> set (map (\<lambda>b. collation_key eng (b_bill_no b)) (bills s))"
  shows "fst (insert_bill eng clk pid no date cur s) = None
     \<and> bills (snd (insert_bill eng clk pid no date cur s)) = bills s"
  using assms by (auto simp: insert_bill_def split: option.splits)

lemma post_billing_unique:
  "bill_nos_unique eng s \<Longrightarrow> bill_nos_unique eng (snd (post_billing eng clk body s))"
proof -
  assume u: "bill_nos_unique eng s"
  obtain r s' where i: "insert_bill eng clk (bill_patient_id body) (bill_billNo clk body)
      (bill_billDate body) (bill_currency eng body) s = (r, s')"
    by (cases "insert_bill eng clk (bill_patient_id body) (bill_billNo clk body)
      (bill_billDate body) (bill_currency eng body) s")
  from insert_bill_bills [OF i] u have "bill_nos_unique eng s'"
    by (auto simp: bill_nos_unique_def)
  with u i show ?thesis
    by (auto simp: post_billing_def Let_def split: option.splits)
qed

text \<open>
  C3, as the code has it. \<^verbatim>\<open>generateBillNo\<close> is a function of the clock readings alone,
  so two requests without a bill number of their own that read the same year and the same
  \<^verbatim>\<open>Date.now()\<close> generate the same number. Once the first of them has created its
  bill, the unique key on \<^verbatim>\<open>bill_no\<close> rejects the \<^verbatim>\<open>INSERT\<close> of the second: it is
  answered 500 (400 when its patient id is missing) and adds no bill. What the table
  keeps is that the bill numbers of its rows are pairwise distinct.
\<close>

theorem generated_bill_no_collides:
  "(\<not> isNonEmptyString (bill_no body1) \<and> \<not> isNonEmptyString (bill_no body2)
      \<longrightarrow> bill_billNo clk body1 = bill_billNo clk body2)
   \<and> (\<not> isNonEmptyString (bill_no body1) \<and> \<not> isNonEmptyString (bill_no body2)
       \<and> post_billing eng clk body1 s = ((201, Json (k, no)), s1)
      \<longrightarrow> fst (post_billing eng clk body2 s1) =
            (if js_not (bill_patient_id body2) then (400, Error ''patient_id is required'')
             else (500, Database_error))
          \<and> bills (snd (post_billing eng clk body2 s1)) = bills s1)
   \<and> (bill_nos_unique eng s \<longrightarrow> bill_nos_unique eng (snd (post_billing eng clk body s)))"
proof -
  have a: "\<not> isNonEmptyString (bill_no body1) \<and> \<not> isNonEmptyString (bill_no body2)
      \<longrightarrow> bill_billNo clk body1 = bill_billNo clk body2"
    by (simp add: bill_billNo_generated)
  have b: "fst (post_billing eng clk body2 s1) =
            (if js_not (bill_patient_id body2) then (400, Error ''patient_id is required'')
             else (500, Database_error))
          \<and> bills (snd (post_billing eng clk body2 s1)) = bills s1"
    if g: "\<not> isNonEmptyString (bill_no body1)" "\<not> isNonEmptyString (bill_no body2)"
      and p: "post_billing eng clk body1 s = ((201, Json (k, no)), s1)"
  proof -
    let ?no = "generateBillNo clk"
    obtain r where i: "insert_bill eng clk (bill_patient_id body1) ?no
        (bill_billDate body1) (bill_currency eng body1) s = (r, s1)" and "r \<noteq> None"
      using p g(1)
      by (auto simp: post_billing_def Let_def bill_billNo_generated
          split: if_splits prod.splits option.splits)
    with insert_bill_bills [OF i] obtain b no' where
      b: "bills s1 = bills s @ [b]" "varchar eng 60 ?no = Some no'" "b_bill_no b = no'"
      by auto
    then have "collation_key eng no' \<in> set (map (\<lambda>b. collation_key eng (b_bill_no b)) (bills s1))"
      by simp
    from insert_bill_duplicate [OF b(2) this]
    have "fst (insert_bill eng clk (bill_patient_id body2) ?no
              (bill_billDate body2) (bill_currency eng body2) s1) = None
       \<and> bills (snd (insert_bill eng clk (bill_patient_id body2) ?no
              (bill_billDate body2) (bill_currency eng body2) s1)) = bills s1" .
    then show ?thesis
      using g(2)
      by (cases "insert_bill eng clk (bill_patient_id body2) ?no
              (bill_billDate body2) (bill_currency eng body2) s1")
        (auto simp: post_billing_def Let_def bill_billNo_generated)
  qed
  show ?thesis
    using a b post_billing_unique by blast
qed

lemma create_bill_twice:
  "post_billing (mysql True) a_clock (a_bill (Num (Fin 1)) Undefined) seed_store =
     ((201, Json (2, (utf16 ''BILL-2026-123456''))),
      seed_store\<lparr>bills := bills seed_store @
                    [\<lparr>b_id = 2, b_patient_id = 1, b_bill_no = (utf16 ''BILL-2026-123456''),
                      b_bill_date = (utf16 ''2026-11-03''), b_currency = (utf16 ''DZD''), b_total_amount = 0\<rparr>],
                  next_bill_id := 3\<rparr>)"
  "post_billing (mysql True) a_clock (a_bill (Num (Fin 2)) Undefined)
     (seed_store\<lparr>bills := bills seed_store @
                    [\<lparr>b_id = 2, b_patient_id = 1, b_bill_no = (utf16 ''BILL-2026-123456''),
                      b_bill_date = (utf16 ''2026-11-03''), b_currency = (utf16 ''DZD''), b_total_amount = 0\<rparr>],
                  next_bill_id := 3\<rparr>) =
     ((500, Database_error),
      seed_store\<lparr>bills := bills seed_store @
                    [\<lparr>b_id = 2, b_patient_id = 1, b_bill_no = (utf16 ''BILL-2026-123456''),
                      b_bill_date = (utf16 ''2026-11-03''), b_currency = (utf16 ''DZD''), b_total_amount = 0\<rparr>],
                  next_bill_id := 4\<rparr>)"
  by (simp_all add: eval_string eval_number eval_engine eval_handlers eval_data)

text \<open>
  Two requests for different patients, neither with a bill number of its own, both
  reading the year 2026 and the same \<^verbatim>\<open>Date.now()\<close>: both generate
  \<^verbatim>\<open>BILL-2026-123456\<close>; the first is answered 201 and the second 500.
\<close>

theorem same_tick_same_bill_no:
  "bill_billNo a_clock (a_bill (Num (Fin 1)) Undefined) = (utf16 ''BILL-2026-123456'')
   \<and> bill_billNo a_clock (a_bill (Num (Fin 2)) Undefined) = (utf16 ''BILL-2026-123456'')
   \<and> fst (post_billing (mysql True) a_clock (a_bill (Num (Fin 1)) Undefined) seed_store)
       = (201, Json (2, (utf16 ''BILL-2026-123456'')))
   \<and> fst (post_billing (mysql True) a_clock (a_bill (Num (Fin 2)) Undefined)
            (snd (post_billing (mysql True) a_clock (a_bill (Num (Fin 1)) Undefined) seed_store)))
       = (500, Database_error)"
  by (simp add: create_bill_twice) (simp add: eval_string eval_handlers eval_data)

theorem generated_bill_no_collides_witness:
  "fst (post_billing (mysql True) a_clock (a_bill (Num (Fin 2)) Undefined)
     (seed_store\<lparr>bills := bills seed_store @
                    [\<lparr>b_id = 2, b_patient_id = 1, b_bill_no = (utf16 ''BILL-2026-123456''),
                      b_bill_date = (utf16 ''2026-11-03''), b_currency = (utf16 ''DZD''), b_total_amount = 0\<rparr>],
                  next_bill_id := 3\<rparr>)) = (500, Database_error)
   \<and> bill_nos_unique (mysql True)
        (snd (post_billing (mysql True) a_clock (a_bill (Num (Fin 1)) Undefined) seed_store))"
  using create_bill_twice(1)
    generated_bill_no_collides [where ?body1.0 = "a_bill (Num (Fin 1)) Undefined"
      and ?body2.0 = "a_bill (Num (Fin 2)) Undefined" and clk = a_clock and eng = "mysql True"
      and s = seed_store and k = 2 and no = "(utf16 ''BILL-2026-123456'')"
      and ?s1.0 = "seed_store\<lparr>bills := bills seed_store @
                    [\<lparr>b_id = 2, b_patient_id = 1, b_bill_no = (utf16 ''BILL-2026-123456''),
                      b_bill_date = (utf16 ''2026-11-03''), b_currency = (utf16 ''DZD''), b_total_amount = 0\<rparr>],
                  next_bill_id := 3\<rparr>"
      and body = "a_bill (Num (Fin 1)) Undefined"]
  by (simp add: eval_string eval_number bill_patient_id_def a_bill_def bill_nos_unique_def
      seed_store_def mysql_def)

subsection \<open>What the two POST handlers do to the tables\<close>

lemma item_sum_same_items: "billing_items s' = billing_items s \<Longrightarrow> item_sum s' b = item_sum s b"
  by (simp add: item_sum_def items_of_def)

lemma item_sum_append:
  "billing_items s' = billing_items s @ [it] \<Longrightarrow>
     item_sum s' b = item_sum s b + (if i_bill_id it = b then line_amount it else 0)"
  by (simp add: item_sum_def items_of_def)

lemma item_sum_fresh_bill: "store_ok s \<Longrightarrow> item_sum s (next_bill_id s) = 0"
proof -
  assume "store_ok s"
  then have "\<forall>i \<in> set (billing_items s). i_bill_id i \<noteq> next_bill_id s"
    by (fastforce simp: store_ok_def list_all_iff)
  then have "items_of s (next_bill_id s) = []"
    by (auto simp: items_of_def filter_empty_conv)
  then show ?thesis by (simp add: item_sum_def)
qed

lemma post_billing_store:
  assumes "snd (post_billing eng clk body s) = s'"
  shows "billing_items s' = billing_items s \<and> next_item_id s' = next_item_id s
     \<and> next_bill_id s \<le> next_bill_id s'
     \<and> (bills s' = bills s
         \<or> (\<exists>b. bills s' = bills s @ [b] \<and> b_id b = next_bill_id s \<and> b_total_amount b = 0
               \<and> next_bill_id s' = next_bill_id s + 1))"
  using assms
  by (auto simp: post_billing_def Let_def insert_bill_def split: option.splits if_splits)

lemma those_map_Some:
  "those (map f xs) = Some ys \<longleftrightarrow> list_all2 (\<lambda>x y. f x = Some y) xs ys"
  by (induction xs arbitrary: ys) (auto split: option.splits simp: list_all2_Cons1)

lemma those_map_None: "those (map f xs) = None \<Longrightarrow> \<exists>x \<in> set xs. f x = None"
  by (induction xs) (auto split: option.splits)

lemma list_all2_left: "list_all2 P xs ys \<Longrightarrow> x \<in> set xs \<Longrightarrow> \<exists>y \<in> set ys. P x y"
  by (induction rule: list_all2_induct) auto

lemma list_all2_right: "list_all2 P xs ys \<Longrightarrow> y \<in> set ys \<Longrightarrow> \<exists>x \<in> set xs. P x y"
  by (induction rule: list_all2_induct) auto

lemma list_all2_map_eq: "list_all2 (\<lambda>x y. g y = g x) xs ys \<Longrightarrow> map g ys = map g xs"
  by (induction rule: list_all2_induct) simp_all

lemma recompute_id: "recompute eng s q b = Some b' \<Longrightarrow> b_id b' = b_id b"
  by (auto simp: recompute_def split: if_splits)

lemma recompute_other: "recompute eng s q b = Some b' \<Longrightarrow> \<not> where_eq q (b_id b) \<Longrightarrow> b' = b"
  by (auto simp: recompute_def)

lemma recompute_target:
  "recompute eng s q b = Some b' \<Longrightarrow> where_eq q (b_id b) \<Longrightarrow>
     decimal_assign eng (item_sum s (b_id b)) = Some (b_total_amount b')"
  by (auto simp: recompute_def)

lemma decimal_assign_fits:
  "\<bar>ROUND2 x\<bar> \<le> DECIMAL_10_2_MAX \<Longrightarrow> decimal_assign eng x = Some (ROUND2 x)"
  by (auto simp: decimal_assign_def clip_def)

lemma int_column_whole:
  "- 2147483648 \<le> k \<Longrightarrow> k \<le> 2147483647 \<Longrightarrow> int_column eng (Fin (of_int k)) = Some k"
  by (simp add: int_column_def to_int_def clip_def)

lemma update_total_result:
  assumes "update_total eng q s1 = Some s2"
  shows "billing_items s2 = billing_items s1 \<and> next_bill_id s2 = next_bill_id s1
     \<and> next_item_id s2 = next_item_id s1
     \<and> list_all2 (\<lambda>b b'. recompute eng s1 q b = Some b') (bills s1) (bills s2)"
  using assms
  by (auto simp: update_total_def those_map_Some split: if_splits)

lemma update_total_failed:
  assumes "update_total eng q s1 = None" and "binds eng q"
  shows "\<exists>b \<in> set (bills s1). recompute eng s1 q b = None"
  using assms by (auto simp: update_total_def dest: those_map_None)

lemma update_total_ids:
  assumes "update_total eng q s1 = Some s2"
  shows "map b_id (bills s2) = map b_id (bills s1)"
proof -
  from update_total_result [OF assms]
  have "list_all2 (\<lambda>b b'. recompute eng s1 q b = Some b') (bills s1) (bills s2)"
    by simp
  then have "list_all2 (\<lambda>b b'. b_id b' = b_id b) (bills s1) (bills s2)"
    by (rule list_all2_mono) (rule recompute_id)
  then show ?thesis by (rule list_all2_map_eq)
qed

lemma insert_item_result:
  assumes "insert_item eng q d n p s = (r, s1)"
  shows "(r = None \<and> billing_items s1 = billing_items s \<and> bills s1 = bills s
          \<and> next_bill_id s1 = next_bill_id s \<and> next_item_id s \<le> next_item_id s1)
     \<or> (\<exists>it. r \<noteq> None \<and> int_column eng q = Some (i_bill_id it)
           \<and> i_bill_id it \<in> set (map b_id (bills s)) \<and> i_id it = next_item_id s
           \<and> s1 = s\<lparr>billing_items := billing_items s @ [it],
                     next_item_id := next_item_id s + 1\<rparr>)"
proof (cases r)
  case None
  with assms show ?thesis
    by (auto simp: insert_item_def split: option.splits if_splits)
next
  case (Some k)
  with assms obtain b d' n' p' where
    "int_column eng q = Some b" "b \<in> set (map b_id (bills s))"
    "s1 = s\<lparr>billing_items := billing_items s @
              [\<lparr>i_id = next_item_id s, i_bill_id = b, i_description = d',
                i_qty = n', i_unit_price = p'\<rparr>],
            next_item_id := next_item_id s + 1\<rparr>"
    by (auto simp: insert_item_def split: option.splits if_splits)
  then have "int_column eng q = Some (i_bill_id \<lparr>i_id = next_item_id s, i_bill_id = b, i_description = d',
                i_qty = n', i_unit_price = p'\<rparr>)
      \<and> i_bill_id \<lparr>i_id = next_item_id s, i_bill_id = b, i_description = d',
                i_qty = n', i_unit_price = p'\<rparr> \<in> set (map b_id (bills s))
      \<and> i_id \<lparr>i_id = next_item_id s, i_bill_id = b, i_description = d',
                i_qty = n', i_unit_price = p'\<rparr> = next_item_id s
      \<and> s1 = s\<lparr>billing_items := billing_items s @ [\<lparr>i_id = next_item_id s, i_bill_id = b, i_description = d',
                i_qty = n', i_unit_price = p'\<rparr>],
                     next_item_id := next_item_id s + 1\<rparr>"
    by simp
  with Some show ?thesis by blast
qed

lemma post_billing_items_store:
  assumes "snd (post_billing_items eng body s) = s'"
  shows "(billing_items s' = billing_items s \<and> bills s' = bills s
          \<and> next_bill_id s' = next_bill_id s \<and> next_item_id s \<le> next_item_id s')
     \<or> (\<exists>it. \<not> js_not (item_billId body)
           \<and> int_column eng (item_billId body) = Some (i_bill_id it)
           \<and> i_bill_id it \<in> set (map b_id (bills s)) \<and> i_id it = next_item_id s
           \<and> s' = (case update_total eng (item_billId body)
                           (s\<lparr>billing_items := billing_items s @ [it],
                              next_item_id := next_item_id s + 1\<rparr>) of
                      None \<Rightarrow> s\<lparr>billing_items := billing_items s @ [it],
                                 next_item_id := next_item_id s + 1\<rparr>
                    | Some s2 \<Rightarrow> s2))"
proof (cases "js_not (item_billId body) \<or> item_description body = []
    \<or> \<not> Number_isFinite (item_unitPrice body) \<or> js_lt (item_unitPrice body) (Fin 0)")
  case True
  with assms show ?thesis
    by (auto simp: post_billing_items_def Let_def)
next
  case False
  obtain r s1 where i: "insert_item eng (item_billId body) (item_description body)
      (item_qty body) (item_unitPrice body) s = (r, s1)"
    by (cases "insert_item eng (item_billId body) (item_description body)
      (item_qty body) (item_unitPrice body) s")
  from insert_item_result [OF i] show ?thesis
  proof
    assume "r = None \<and> billing_items s1 = billing_items s \<and> bills s1 = bills s
          \<and> next_bill_id s1 = next_bill_id s \<and> next_item_id s \<le> next_item_id s1"
    with assms False i show ?thesis
      by (auto simp: post_billing_items_def Let_def)
  next
    assume "\<exists>it. r \<noteq> None \<and> int_column eng (item_billId body) = Some (i_bill_id it)
           \<and> i_bill_id it \<in> set (map b_id (bills s)) \<and> i_id it = next_item_id s
           \<and> s1 = s\<lparr>billing_items := billing_items s @ [it],
                     next_item_id := next_item_id s + 1\<rparr>"
    then obtain it where it: "r \<noteq> None" "int_column eng (item_billId body) = Some (i_bill_id it)"
      "i_bill_id it \<in> set (map b_id (bills s))" "i_id it = next_item_id s"
      "s1 = s\<lparr>billing_items := billing_items s @ [it], next_item_id := next_item_id s + 1\<rparr>"
      by blast
    have "s' = (case update_total eng (item_billId body) s1 of None \<Rightarrow> s1 | Some s2 \<Rightarrow> s2)"
      using assms False i it(1)
      by (auto simp: post_billing_items_def Let_def split: option.splits)
    with it False show ?thesis by blast
  qed
qed

lemma store_ok_item_added:
  assumes "store_ok s" and "i_bill_id it \<in> set (map b_id (bills s))" and "i_id it = next_item_id s"
  shows "store_ok (s\<lparr>billing_items := billing_items s @ [it], next_item_id := next_item_id s + 1\<rparr>)"
proof -
  have "list_all (\<lambda>i. i_id i < next_item_id s + 1) (billing_items s)"
    using assms(1) by (auto simp: store_ok_def list_all_iff)
  then show ?thesis
    using assms by (simp add: store_ok_def)
qed

lemma update_total_store_ok:
  assumes "update_total eng q s1 = Some s2" and "store_ok s1"
  shows "store_ok s2"
proof -
  from update_total_result [OF assms(1)]
  have r: "billing_items s2 = billing_items s1" "next_bill_id s2 = next_bill_id s1"
    "next_item_id s2 = next_item_id s1"
    by simp_all
  have ids: "map b_id (bills s2) = map b_id (bills s1)"
    using assms(1) by (rule update_total_ids)
  have "list_all (\<lambda>b. b_id b < next_bill_id s1) (bills s2)
      \<longleftrightarrow> list_all (\<lambda>j. j < next_bill_id s1) (map b_id (bills s2))"
    by (simp add: list_all_iff)
  also have "\<dots> \<longleftrightarrow> list_all (\<lambda>b. b_id b < next_bill_id s1) (bills s1)"
    by (simp add: ids list_all_iff)
  finally show ?thesis
    using assms(2) by (simp add: store_ok_def r ids)
qed

lemma store_ok_bill_added:
  assumes "store_ok s" and "snd (post_billing eng clk body s) = s'"
  shows "store_ok s'"
proof -
  from post_billing_store [OF assms(2)]
  have it: "billing_items s' = billing_items s" "next_item_id s' = next_item_id s"
    and le: "next_bill_id s \<le> next_bill_id s'"
    and bs: "bills s' = bills s
         \<or> (\<exists>b. bills s' = bills s @ [b] \<and> b_id b = next_bill_id s \<and> b_total_amount b = 0
               \<and> next_bill_id s' = next_bill_id s + 1)"
    by blast+
  from bs show ?thesis
  proof
    assume "bills s' = bills s"
    with assms(1) it le show ?thesis
      by (fastforce simp: store_ok_def list_all_iff)
  next
    assume "\<exists>b. bills s' = bills s @ [b] \<and> b_id b = next_bill_id s \<and> b_total_amount b = 0
               \<and> next_bill_id s' = next_bill_id s + 1"
    then obtain b where "bills s' = bills s @ [b]" "b_id b = next_bill_id s"
      "next_bill_id s' = next_bill_id s + 1"
      by blast
    with assms(1) it show ?thesis
      by (fastforce simp: store_ok_def list_all_iff)
  qed
qed

lemma ids_in_order_item_added:
  assumes "store_ok s" and "sorted (map i_id (billing_items s))"
    and "snd (post_billing_items eng body s) = s'"
  shows "store_ok s' \<and> sorted (map i_id (billing_items s'))"
proof -
  let ?q = "item_billId body"
  from post_billing_items_store [OF assms(3)] show ?thesis
  proof
    assume same: "billing_items s' = billing_items s \<and> bills s' = bills s
          \<and> next_bill_id s' = next_bill_id s \<and> next_item_id s \<le> next_item_id s'"
    have "list_all (\<lambda>i. i_id i < next_item_id s') (billing_items s')"
      using assms(1) same by (auto simp: store_ok_def list_all_iff)
    then have "store_ok s'"
      using assms(1) same by (simp add: store_ok_def)
    with assms(2) same show ?thesis by simp
  next
    assume "\<exists>it. \<not> js_not ?q \<and> int_column eng ?q = Some (i_bill_id it)
           \<and> i_bill_id it \<in> set (map b_id (bills s)) \<and> i_id it = next_item_id s
           \<and> s' = (case update_total eng ?q
                           (s\<lparr>billing_items := billing_items s @ [it],
                              next_item_id := next_item_id s + 1\<rparr>) of
                      None \<Rightarrow> s\<lparr>billing_items := billing_items s @ [it],
                                 next_item_id := next_item_id s + 1\<rparr>
                    | Some s2 \<Rightarrow> s2)"
    then obtain it where ref: "i_bill_id it \<in> set (map b_id (bills s))"
      and iid: "i_id it = next_item_id s"
      and s': "s' = (case update_total eng ?q
                           (s\<lparr>billing_items := billing_items s @ [it],
                              next_item_id := next_item_id s + 1\<rparr>) of
                      None \<Rightarrow> s\<lparr>billing_items := billing_items s @ [it],
                                 next_item_id := next_item_id s + 1\<rparr>
                    | Some s2 \<Rightarrow> s2)"
      by blast
    define s1 where "s1 = s\<lparr>billing_items := billing_items s @ [it],
                              next_item_id := next_item_id s + 1\<rparr>"
    have ok1: "store_ok s1"
      unfolding s1_def using assms(1) ref iid by (rule store_ok_item_added)
    have "\<forall>i \<in> set (billing_items s). i_id i \<le> i_id it"
      using assms(1) iid by (auto simp: store_ok_def list_all_iff)
    with assms(2) have so1: "sorted (map i_id (billing_items s1))"
      by (simp add: s1_def sorted_append)
    show ?thesis
    proof (cases "update_total eng ?q s1")
      case None
      with s' have "s' = s1" by (simp add: s1_def)
      with ok1 so1 show ?thesis by simp
    next
      case (Some s2)
      with s' have e: "s' = s2" by (simp add: s1_def)
      from update_total_result [OF Some] have "billing_items s2 = billing_items s1"
        by simp
      with update_total_store_ok [OF Some ok1] so1 e show ?thesis
        by simp
    qed
  qed
qed

lemma ids_in_order_run:
  "store_ok s \<Longrightarrow> sorted (map i_id (billing_items s)) \<Longrightarrow>
     store_ok (run eng rs s) \<and> sorted (map i_id (billing_items (run eng rs s)))"
proof (induction rs arbitrary: s)
  case Nil
  then show ?case by simp
next
  case (Cons r rs)
  have "store_ok (apply_request eng r s) \<and> sorted (map i_id (billing_items (apply_request eng r s)))"
  proof (cases r)
    case (Create_bill clk body)
    from post_billing_store [of eng clk body s]
    have "billing_items (snd (post_billing eng clk body s)) = billing_items s"
      by simp
    with Cons.prems Create_bill store_ok_bill_added [of s eng clk body] show ?thesis
      by simp
  next
    case (Add_item body)
    with Cons.prems ids_in_order_item_added [of s eng body] show ?thesis
      by simp
  qed
  with Cons.IH show ?case by simp
qed

subsection \<open>The unit price of an item\<close>







subsection \<open>The totals of the bills\<close>

lemma post_billing_preserves:
  assumes "store_ok s" and "totals_consistent s"
  shows "store_ok (snd (post_billing eng clk body s))
     \<and> totals_consistent (snd (post_billing eng clk body s))"
proof -
  define s' where "s' = snd (post_billing eng clk body s)"
  from post_billing_store [OF s'_def [symmetric]]
  have it: "billing_items s' = billing_items s" "next_item_id s' = next_item_id s"
    and le: "next_bill_id s \<le> next_bill_id s'"
    and bs: "bills s' = bills s
         \<or> (\<exists>b. bills s' = bills s @ [b] \<and> b_id b = next_bill_id s \<and> b_total_amount b = 0
               \<and> next_bill_id s' = next_bill_id s + 1)"
    by blast+
  have sums: "item_sum s' b = item_sum s b" for b
    using it(1) by (rule item_sum_same_items)
  from bs have "store_ok s' \<and> totals_consistent s'"
  proof
    assume "bills s' = bills s"
    with assms it le show ?thesis
      by (fastforce simp: store_ok_def totals_consistent_def list_all_iff sums)
  next
    assume "\<exists>b. bills s' = bills s @ [b] \<and> b_id b = next_bill_id s \<and> b_total_amount b = 0
               \<and> next_bill_id s' = next_bill_id s + 1"
    then obtain b where b: "bills s' = bills s @ [b]" "b_id b = next_bill_id s"
      "b_total_amount b = 0" "next_bill_id s' = next_bill_id s + 1"
      by blast
    have "store_ok s'"
      using assms(1) it b by (fastforce simp: store_ok_def list_all_iff)
    moreover have "totals_consistent s'"
      using assms b item_sum_fresh_bill [OF assms(1)]
      by (auto simp: totals_consistent_def list_all_iff sums ROUND2_0)
    ultimately show ?thesis ..
  qed
  then show ?thesis by (simp add: s'_def)
qed

lemma whole_bill_id_int:
  assumes "whole_bill_id body" and "\<not> js_not (item_billId body)"
  obtains k where "item_billId body = Fin (of_int k)" "- 2147483648 \<le> k" "k \<le> 2147483647"
proof (cases "item_billId body")
  case (Fin x)
  with assms(1) have "(case Fin x of
        Fin x \<Rightarrow> of_int \<lfloor>x\<rfloor> = x \<and> - 2147483648 \<le> \<lfloor>x\<rfloor> \<and> \<lfloor>x\<rfloor> \<le> 2147483647
      | NaN \<Rightarrow> True
      | _ \<Rightarrow> False)"
    unfolding whole_bill_id_def by (simp only:)
  then have h: "of_int \<lfloor>x\<rfloor> = x" "- 2147483648 \<le> \<lfloor>x\<rfloor>" "\<lfloor>x\<rfloor> \<le> 2147483647"
    by (simp_all only: jsnum.case)
  from Fin h(1) have "item_billId body = Fin (of_int \<lfloor>x\<rfloor>)"
    by (simp only:)
  then show ?thesis
    using h(2,3) by (rule that)
next
  case NaN
  with assms(2) show ?thesis by (simp add: js_not_iff)
next
  case NegInf
  with assms(1) show ?thesis by (simp add: whole_bill_id_def)
next
  case PosInf
  with assms(1) show ?thesis by (simp add: whole_bill_id_def)
qed

lemma preserved_when_tables_unchanged:
  assumes "store_ok s" and "totals_consistent s"
    and "billing_items s' = billing_items s" and "bills s' = bills s"
    and "next_bill_id s' = next_bill_id s" and "next_item_id s \<le> next_item_id s'"
  shows "store_ok s' \<and> totals_consistent s'"
proof -
  have "item_sum s' b = item_sum s b" for b
    using assms(3) by (rule item_sum_same_items)
  then have "totals_consistent s'"
    using assms(2,4) by (simp add: totals_consistent_def)
  moreover have "list_all (\<lambda>i. i_id i < next_item_id s') (billing_items s')"
    using assms(1,3,6) by (auto simp: store_ok_def list_all_iff)
  then have "store_ok s'"
    using assms(1,3,4,5) by (simp add: store_ok_def)
  ultimately show ?thesis by simp
qed

lemma sums_fit_before_update:
  assumes "sums_fit s'" and "s' = (case update_total eng q s1 of None \<Rightarrow> s1 | Some s2 \<Rightarrow> s2)"
  shows "sums_fit s1"
proof (cases "update_total eng q s1")
  case None
  with assms show ?thesis by simp
next
  case (Some s2)
  with assms have f: "sums_fit s2" by simp
  from update_total_result [OF Some] have r: "billing_items s2 = billing_items s1"
    by simp
  have sum2: "item_sum s2 j = item_sum s1 j" for j
    by (rule item_sum_same_items [OF r])
  from f have "list_all (\<lambda>j. \<bar>ROUND2 (item_sum s1 j)\<bar> \<le> DECIMAL_10_2_MAX) (map b_id (bills s2))"
    by (simp add: sums_fit_def list_all_iff sum2)
  then have "list_all (\<lambda>j. \<bar>ROUND2 (item_sum s1 j)\<bar> \<le> DECIMAL_10_2_MAX) (map b_id (bills s1))"
    by (simp only: update_total_ids [OF Some])
  then show ?thesis
    by (simp add: sums_fit_def list_all_iff)
qed

lemma update_total_succeeds:
  assumes "sums_fit s1" and "binds eng q"
  shows "update_total eng q s1 \<noteq> None"
proof
  assume "update_total eng q s1 = None"
  from update_total_failed [OF this assms(2)] obtain b where
    b: "b \<in> set (bills s1)" "recompute eng s1 q b = None"
    by blast
  from assms(1) b(1) have "\<bar>ROUND2 (item_sum s1 (b_id b))\<bar> \<le> DECIMAL_10_2_MAX"
    by (simp add: sums_fit_def list_all_iff)
  then have "decimal_assign eng (item_sum s1 (b_id b)) \<noteq> None"
    by (simp add: decimal_assign_fits)
  with b(2) show False
    by (simp add: recompute_def split: if_splits)
qed

lemma totals_after_update:
  assumes u: "update_total eng (Fin (of_int k)) s1 = Some s2" and fit1: "sums_fit s1"
    and s1: "billing_items s1 = billing_items s @ [it]" "bills s1 = bills s"
    and bk: "i_bill_id it = k" and tc: "totals_consistent s"
  shows "totals_consistent s2"
  unfolding totals_consistent_def list_all_iff
proof
  fix b' assume b': "b' \<in> set (bills s2)"
  let ?q = "Fin (of_int k)"
  from update_total_result [OF u]
  have r: "billing_items s2 = billing_items s1"
    "list_all2 (\<lambda>b b'. recompute eng s1 ?q b = Some b') (bills s1) (bills s2)"
    by simp_all
  from list_all2_right [OF r(2) b'] obtain b where
    b: "b \<in> set (bills s1)" "recompute eng s1 ?q b = Some b'"
    by blast
  have sum2: "item_sum s2 j = item_sum s1 j" for j
    by (rule item_sum_same_items [OF r(1)])
  have id: "b_id b' = b_id b"
    using b(2) by (rule recompute_id)
  from fit1 b(1) have fit: "\<bar>ROUND2 (item_sum s1 (b_id b))\<bar> \<le> DECIMAL_10_2_MAX"
    by (simp add: sums_fit_def list_all_iff)
  show "b_total_amount b' = ROUND2 (item_sum s2 (b_id b'))"
  proof (cases "b_id b = k")
    case True
    then have "where_eq ?q (b_id b)"
      by (simp add: where_eq_whole)
    with b(2) have "decimal_assign eng (item_sum s1 (b_id b)) = Some (b_total_amount b')"
      by (rule recompute_target)
    with fit have "b_total_amount b' = ROUND2 (item_sum s1 (b_id b))"
      by (simp add: decimal_assign_fits)
    then show ?thesis
      by (simp add: sum2 id)
  next
    case False
    then have "\<not> where_eq ?q (b_id b)"
      by (simp add: where_eq_whole)
    with b(2) have "b' = b"
      by (rule recompute_other)
    moreover from tc b(1) have "b_total_amount b = ROUND2 (item_sum s (b_id b))"
      by (simp add: totals_consistent_def list_all_iff s1(2))
    moreover from False have "item_sum s1 (b_id b) = item_sum s (b_id b)"
      by (simp add: item_sum_append [OF s1(1)] bk)
    ultimately show ?thesis
      by (simp add: sum2)
  qed
qed

lemma post_billing_items_preserves:
  assumes ok: "store_ok s" and tc: "totals_consistent s" and w: "whole_bill_id body"
    and fit: "sums_fit (snd (post_billing_items eng body s))"
  shows "store_ok (snd (post_billing_items eng body s))
     \<and> totals_consistent (snd (post_billing_items eng body s))"
proof -
  define s' where "s' = snd (post_billing_items eng body s)"
  let ?q = "item_billId body"
  from post_billing_items_store [OF s'_def [symmetric]]
  have "store_ok s' \<and> totals_consistent s'"
  proof
    assume "billing_items s' = billing_items s \<and> bills s' = bills s
          \<and> next_bill_id s' = next_bill_id s \<and> next_item_id s \<le> next_item_id s'"
    then show ?thesis
      by (intro preserved_when_tables_unchanged [OF ok tc]) simp_all
  next
    assume "\<exists>it. \<not> js_not ?q \<and> int_column eng ?q = Some (i_bill_id it)
           \<and> i_bill_id it \<in> set (map b_id (bills s)) \<and> i_id it = next_item_id s
           \<and> s' = (case update_total eng ?q
                           (s\<lparr>billing_items := billing_items s @ [it],
                              next_item_id := next_item_id s + 1\<rparr>) of
                      None \<Rightarrow> s\<lparr>billing_items := billing_items s @ [it],
                                 next_item_id := next_item_id s + 1\<rparr>
                    | Some s2 \<Rightarrow> s2)"
    then obtain it where nz: "\<not> js_not ?q" and col: "int_column eng ?q = Some (i_bill_id it)"
      and ref: "i_bill_id it \<in> set (map b_id (bills s))" and iid: "i_id it = next_item_id s"
      and s': "s' = (case update_total eng ?q
                           (s\<lparr>billing_items := billing_items s @ [it],
                              next_item_id := next_item_id s + 1\<rparr>) of
                      None \<Rightarrow> s\<lparr>billing_items := billing_items s @ [it],
                                 next_item_id := next_item_id s + 1\<rparr>
                    | Some s2 \<Rightarrow> s2)"
      by blast
    define s1 where "s1 = s\<lparr>billing_items := billing_items s @ [it],
                              next_item_id := next_item_id s + 1\<rparr>"
    have s1: "billing_items s1 = billing_items s @ [it]" "bills s1 = bills s"
      by (simp_all add: s1_def)
    from w nz obtain k where k: "?q = Fin (of_int k)" "- 2147483648 \<le> k" "k \<le> 2147483647"
      by (rule whole_bill_id_int)
    with col have bk: "i_bill_id it = k"
      by (simp add: int_column_whole)
    have bnd: "binds eng ?q"
      by (simp add: k(1) binds_def)
    have ok1: "store_ok s1"
      unfolding s1_def using ok ref iid by (rule store_ok_item_added)
    have s'1: "s' = (case update_total eng ?q s1 of None \<Rightarrow> s1 | Some s2 \<Rightarrow> s2)"
      using s' by (simp only: s1_def)
    have fit1: "sums_fit s1"
      using fit s'1 unfolding s'_def [symmetric] by (rule sums_fit_before_update)
    from update_total_succeeds [OF fit1 bnd] obtain s2 where u: "update_total eng ?q s1 = Some s2"
      by blast
    with s'1 have e: "s' = s2" by simp
    have "store_ok s2"
      using u ok1 by (rule update_total_store_ok)
    moreover have "totals_consistent s2"
      using u [unfolded k(1)] fit1 s1 bk tc by (rule totals_after_update)
    ultimately show ?thesis
      by (simp add: e)
  qed
  then show ?thesis by (simp add: s'_def)
qed

lemma run_preserves:
  "store_ok s \<Longrightarrow> totals_consistent s \<Longrightarrow> within_columns eng rs s \<Longrightarrow>
     store_ok (run eng rs s) \<and> totals_consistent (run eng rs s)"
proof (induction rs arbitrary: s)
  case Nil
  then show ?case by simp
next
  case (Cons r rs)
  have "store_ok (apply_request eng r s) \<and> totals_consistent (apply_request eng r s)"
  proof (cases r)
    case (Create_bill clk body)
    with Cons.prems show ?thesis
      by (simp add: post_billing_preserves)
  next
    case (Add_item body)
    with Cons.prems show ?thesis
      by (simp add: post_billing_items_preserves)
  qed
  with Cons show ?case by simp
qed

lemma recomputed_total:
  assumes "post_billing_items eng body s = ((201, Json j), s')" and "sums_fit s'"
  shows "list_all (\<lambda>b. where_eq (item_billId body) (b_id b)
                          \<longrightarrow> b_total_amount b = ROUND2 (item_sum s' (b_id b))) (bills s')"
proof -
  let ?q = "item_billId body"
  from assms(1) obtain s1 where u: "update_total eng ?q s1 = Some s'"
    by (auto simp: post_billing_items_def Let_def split: if_splits prod.splits option.splits)
  from update_total_result [OF u]
  have r: "billing_items s' = billing_items s1"
    "list_all2 (\<lambda>b b'. recompute eng s1 ?q b = Some b') (bills s1) (bills s')"
    by simp_all
  have sum: "item_sum s' k = item_sum s1 k" for k
    by (rule item_sum_same_items [OF r(1)])
  show ?thesis
    unfolding list_all_iff
  proof (intro ballI impI)
    fix b' assume b': "b' \<in> set (bills s')" and t: "where_eq ?q (b_id b')"
    from list_all2_right [OF r(2) b'] obtain b where
      b: "recompute eng s1 ?q b = Some b'"
      by blast
    then have id: "b_id b' = b_id b"
      by (rule recompute_id)
    with b t have "decimal_assign eng (item_sum s1 (b_id b)) = Some (b_total_amount b')"
      by (simp add: recompute_target)
    moreover from assms(2) b' have "\<bar>ROUND2 (item_sum s' (b_id b'))\<bar> \<le> DECIMAL_10_2_MAX"
      by (simp add: sums_fit_def list_all_iff)
    then have "\<bar>ROUND2 (item_sum s1 (b_id b))\<bar> \<le> DECIMAL_10_2_MAX"
      by (simp add: sum id)
    ultimately show "b_total_amount b' = ROUND2 (item_sum s' (b_id b'))"
      by (simp add: decimal_assign_fits sum id)
  qed
qed

lemma new_bill_total:
  assumes "post_billing eng clk body s = ((201, Json (k, no)), s')"
  shows "\<exists>b. bills s' = bills s @ [b] \<and> b_id b = k \<and> b_total_amount b = 0"
  using assms
  by (auto simp: post_billing_def Let_def insert_bill_def split: option.splits if_splits)

text \<open>
  C1, as the code has it. A bill is created with the total 0. Take a store in which every
  total is the rounded sum of its items, and a sequence of bill creations and item
  additions in which every item request names its bill by a whole number and every sum
  stays within what \<^verbatim>\<open>DECIMAL(10,2)\<close> holds: after the sequence every total is again
  the sum over all items of the bill of \<^verbatim>\<open>qty * unit_price\<close>, rounded to two decimals.
  An item addition that is answered 201 has set the total of the bill it names to the
  rounded sum over all items of that bill, whatever the total was before: the sum is
  taken anew, not carried forward.
\<close>

theorem bill_totals_consistent:
  "(store_ok s \<and> totals_consistent s \<and> within_columns eng rs s
      \<longrightarrow> totals_consistent (run eng rs s))
   \<and> (post_billing eng clk body s = ((201, Json (k, no)), s')
      \<longrightarrow> (\<exists>b. bills s' = bills s @ [b] \<and> b_id b = k \<and> b_total_amount b = 0))
   \<and> (post_billing_items eng ibody s = ((201, Json j), s'') \<and> sums_fit s''
      \<longrightarrow> list_all (\<lambda>b. where_eq (item_billId ibody) (b_id b)
                           \<longrightarrow> b_total_amount b = ROUND2 (item_sum s'' (b_id b))) (bills s''))"
  using run_preserves [of s eng rs] new_bill_total [of eng clk body s k no s']
    recomputed_total [of eng ibody s j s'']
  by blast

lemma seed_store_ok: "store_ok seed_store \<and> totals_consistent seed_store"
  by (simp add: store_ok_def totals_consistent_def seed_store_def eval_engine)

lemma run_some_requests:
  "run (mysql True) some_requests seed_store =
     seed_store\<lparr>bills := [\<lparr>b_id = 1, b_patient_id = 1, b_bill_no = (utf16 ''BILL-2026-0001''),
                b_bill_date = (utf16 ''2026-11-03''), b_currency = (utf16 ''DZD''), b_total_amount = 430100\<rparr>,
                \<lparr>b_id = 2, b_patient_id = 2, b_bill_no = (utf16 ''BILL-2026-123456''),
                b_bill_date = (utf16 ''2026-11-03''), b_currency = (utf16 ''DZD''), b_total_amount = 5997\<rparr>],
        billing_items := billing_items seed_store @
          [\<lparr>i_id = 3, i_bill_id = 2, i_description = (utf16 ''Scan''), i_qty = 3, i_unit_price = 1999\<rparr>,
           \<lparr>i_id = 4, i_bill_id = 1, i_description = (utf16 ''Scan''), i_qty = 2, i_unit_price = 50\<rparr>],
        next_bill_id := 3, next_item_id := 5\<rparr>"
  by (simp add: some_requests_def eval_string eval_number eval_engine eval_handlers eval_data)

theorem bill_totals_consistent_witness:
  "totals_consistent (run (mysql True) some_requests seed_store)
   \<and> map b_total_amount (bills (run (mysql True) some_requests seed_store)) = [430100, 5997]"
proof -
  have w: "within_columns (mysql True) some_requests seed_store"
    by (simp add: some_requests_def sums_fit_def whole_bill_id_def
        eval_string eval_number eval_engine eval_handlers eval_data)
  from bill_totals_consistent [of seed_store "mysql True" some_requests] seed_store_ok w
  have "totals_consistent (run (mysql True) some_requests seed_store)"
    by blast
  then show ?thesis
    by (simp add: run_some_requests)
qed

text \<open>
  One item of quantity 1000 at 100000.00 on bill 1 of the seed brings its sum to
  100004300.00, above the 99999999.99 of \<^verbatim>\<open>DECIMAL(10,2)\<close>. In strict mode the
  \<^verbatim>\<open>UPDATE\<close> throws after the item has been inserted: the answer is 500 and the total
  stays 4300.00. In lenient mode the answer is 201 and the total is clipped to 99999999.99.
\<close>

theorem total_out_of_range:
  "fst (post_billing_items (mysql True) a_large_item seed_store) = (500, Database_error)
   \<and> map b_total_amount (bills (run (mysql True) [Add_item a_large_item] seed_store)) = [430000]
   \<and> item_sum (run (mysql True) [Add_item a_large_item] seed_store) 1 = 100004300
   \<and> \<not> totals_consistent (run (mysql True) [Add_item a_large_item] seed_store)
   \<and> fst (post_billing_items (mysql False) a_large_item seed_store) = (201, Json 3)
   \<and> map b_total_amount (bills (run (mysql False) [Add_item a_large_item] seed_store))
       = [9999999999]
   \<and> \<not> totals_consistent (run (mysql False) [Add_item a_large_item] seed_store)"
  by (simp add: a_large_item_def totals_consistent_def
      eval_string eval_number eval_engine eval_handlers eval_data)

text \<open>
  An item request whose bill id is 0.5: the \<^verbatim>\<open>INT\<close> column rounds it to 1, so the item
  goes to bill 1, while \<^verbatim>\<open>WHERE b.id = 0.5\<close> selects no bill and no total is
  recomputed.
\<close>

lemma fractional_bill_id:
  "fst (post_billing_items (mysql True) (an_item (Num (Fin (1 / 2))) (Num (Fin 1)) (Num (Fin 10)))
          seed_store) = (201, Json 3)
   \<and> map b_total_amount
        (bills (snd (post_billing_items (mysql True)
                       (an_item (Num (Fin (1 / 2))) (Num (Fin 1)) (Num (Fin 10))) seed_store)))
       = [430000]
   \<and> item_sum (snd (post_billing_items (mysql True)
                       (an_item (Num (Fin (1 / 2))) (Num (Fin 1)) (Num (Fin 10))) seed_store)) 1
       = 4310"
  by (simp add: eval_string eval_number eval_engine eval_handlers eval_data)

subsection \<open>GET /api/billing/items\<close>

lemma sort_key_rows:
  "map r_id (map select_item (sort_key i_id xs)) = map i_id (sort_key i_id xs)"
  by (simp add: select_item_def comp_def)

lemma listing_rows:
  assumes "get_billing_items eng q s = (200, Json rows)"
  shows "sorted (map r_id rows)
     \<and> (\<forall>r \<in> set rows.
           r_line_total r = ROUND2 (of_int (r_qty r) * (of_int (r_unit_price r) / 100))
           \<and> r_line_total r = r_qty r * r_unit_price r)"
proof -
  from assms obtain xs where rows: "rows = map select_item (sort_key i_id xs)"
    by (auto simp: get_billing_items_def Let_def split: if_splits)
  have "sorted (map r_id rows)"
    unfolding rows sort_key_rows by simp
  moreover have "r_line_total r = ROUND2 (of_int (r_qty r) * (of_int (r_unit_price r) / 100))
           \<and> r_line_total r = r_qty r * r_unit_price r" if "r \<in> set rows" for r
    using that ROUND2_line_amount unfolding rows by (auto simp: select_item_def line_amount_def)
  ultimately show ?thesis
    by blast
qed

text \<open>
  C10. For a \<^verbatim>\<open>billId\<close> parameter that is the decimal text of a whole number \<open>n\<close>
  other than 0 and of magnitude below \<open>2 ^ 53\<close>, as every id of an \<^verbatim>\<open>INT\<close> column is
  (and for any other text that \<^verbatim>\<open>Number\<close> reads as \<open>n\<close>), the response is 200 with
  one row for every item of \<^verbatim>\<open>billing_items\<close> whose bill is \<open>n\<close>, and no other row,
  in ascending order of the item id. A row carries the id, the description, the quantity
  and the unit price of its item, and \<^verbatim>\<open>line_total\<close>, which is \<^verbatim>\<open>qty * unit_price\<close>
  rounded to two decimals; as the unit price has two decimals and the quantity is whole,
  that is the product itself. The rows of every response with status 200 are in ascending
  order of the id and carry that \<^verbatim>\<open>line_total\<close>. In a table whose ids ascend in
  insertion order the rows come in insertion order, and the requests keep the ids of
  \<^verbatim>\<open>billing_items\<close> in that order.
\<close>

theorem billing_items_listing:
  "(n \<noteq> 0 \<and> \<bar>n\<bar> < 2 ^ 53
      \<longrightarrow> get_billing_items eng (Some (string_of_int n)) s =
            (200, Json (map (\<lambda>i. \<lparr>r_id = i_id i, r_description = i_description i,
                                   r_qty = i_qty i, r_unit_price = i_unit_price i,
                                   r_line_total =
                                     ROUND2 (of_int (i_qty i) * (of_int (i_unit_price i) / 100))\<rparr>)
                            (sort_key i_id (filter (\<lambda>i. i_bill_id i = n) (billing_items s))))))
   \<and> (Number (js_or (query q) (Num (Fin 0))) = Fin (of_int n) \<and> n \<noteq> 0
        \<longrightarrow> get_billing_items eng q s =
            (200, Json (map (\<lambda>i. \<lparr>r_id = i_id i, r_description = i_description i,
                                   r_qty = i_qty i, r_unit_price = i_unit_price i,
                                   r_line_total =
                                     ROUND2 (of_int (i_qty i) * (of_int (i_unit_price i) / 100))\<rparr>)
                            (sort_key i_id (filter (\<lambda>i. i_bill_id i = n) (billing_items s))))))
   \<and> ROUND2 (of_int (i_qty (i :: billing_item)) * (of_int (i_unit_price i) / 100))
       = i_qty i * i_unit_price i
   \<and> (get_billing_items eng q s = (200, Json rows)
        \<longrightarrow> sorted (map r_id rows)
            \<and> (\<forall>r \<in> set rows.
                  r_line_total r = ROUND2 (of_int (r_qty r) * (of_int (r_unit_price r) / 100))
                  \<and> r_line_total r = r_qty r * r_unit_price r))
   \<and> (sorted (map i_id (billing_items s))
        \<longrightarrow> sort_key i_id (filter (\<lambda>i. i_bill_id i = n) (billing_items s))
            = filter (\<lambda>i. i_bill_id i = n) (billing_items s))
   \<and> (store_ok s0 \<and> sorted (map i_id (billing_items s0))
        \<longrightarrow> sorted (map i_id (billing_items (run eng rs s0))))"
proof -
  let ?rows = "map (\<lambda>i. \<lparr>r_id = i_id i, r_description = i_description i,
                                   r_qty = i_qty i, r_unit_price = i_unit_price i,
                                   r_line_total =
                                     ROUND2 (of_int (i_qty i) * (of_int (i_unit_price i) / 100))\<rparr>)
                            (sort_key i_id (filter (\<lambda>i. i_bill_id i = n) (billing_items s)))"
  have sel: "select_item = (\<lambda>i. \<lparr>r_id = i_id i, r_description = i_description i,
                                   r_qty = i_qty i, r_unit_price = i_unit_price i,
                                   r_line_total =
                                     ROUND2 (of_int (i_qty i) * (of_int (i_unit_price i) / 100))\<rparr>)"
    by (rule ext) (simp add: select_item_def line_amount_def)
  have a: "get_billing_items eng q' s = (200, Json ?rows)"
    if "Number (js_or (query q') (Num (Fin 0))) = Fin (of_int n)" and "n \<noteq> 0" for q'
    using that
    by (simp add: get_billing_items_def js_not_iff binds_def where_eq_whole sel)
  have a1: "n \<noteq> 0 \<and> \<bar>n\<bar> < 2 ^ 53
      \<longrightarrow> get_billing_items eng (Some (string_of_int n)) s = (200, Json ?rows)"
    using a [OF billId_of_decimal] by blast
  have a2: "Number (js_or (query q) (Num (Fin 0))) = Fin (of_int n) \<and> n \<noteq> 0
        \<longrightarrow> get_billing_items eng q s = (200, Json ?rows)"
    using a [of q] by blast
  have b: "ROUND2 (of_int (i_qty i) * (of_int (i_unit_price i) / 100)) = i_qty i * i_unit_price i"
    using ROUND2_line_amount [of i] by (simp add: line_amount_def)
  have d: "sorted (map i_id (billing_items s))
        \<longrightarrow> sort_key i_id (filter (\<lambda>i. i_bill_id i = n) (billing_items s))
            = filter (\<lambda>i. i_bill_id i = n) (billing_items s)"
    by (simp add: sorted_filter sort_key_id_if_sorted)
  have e: "store_ok s0 \<and> sorted (map i_id (billing_items s0))
        \<longrightarrow> sorted (map i_id (billing_items (run eng rs s0)))"
    using ids_in_order_run [of s0 eng rs] by blast
  from a1 a2 b listing_rows [of eng q s rows] d e show ?thesis
    by blast
qed

text \<open>
  After the requests of \<open>some_requests\<close> on the seed, bill 2 has one item of quantity 3 at
  19.99, listed with the line total 59.97, and bill 1 has its two items of the seed and
  one of quantity 2 at 0.50.
\<close>

lemma listing_examples:
  "get_billing_items (mysql True) (Some (string_of_int 2)) (run (mysql True) some_requests seed_store)
     = (200, Json [\<lparr>r_id = 3, r_description = utf16 ''Scan'', r_qty = 3,
                    r_unit_price = 1999, r_line_total = 5997\<rparr>])"
  "get_billing_items (mysql True) (Some (utf16 '' 0x1 '')) (run (mysql True) some_requests seed_store)
     = (200, Json [\<lparr>r_id = 1, r_description = utf16 ''Consultation fee'', r_qty = 1,
                    r_unit_price = 250000, r_line_total = 250000\<rparr>,
                   \<lparr>r_id = 2, r_description = utf16 ''ECG'', r_qty = 1,
                    r_unit_price = 180000, r_line_total = 180000\<rparr>,
                   \<lparr>r_id = 4, r_description = utf16 ''Scan'', r_qty = 2,
                    r_unit_price = 50, r_line_total = 100\<rparr>])"
  by (simp_all only: run_some_requests)
    (simp_all add: eval_string eval_number eval_engine select_item_def get_billing_items_def
      seed_store_def)

theorem billing_items_listing_witness:
  "get_billing_items (mysql True) (Some (string_of_int 2)) (run (mysql True) some_requests seed_store)
     = (200, Json [\<lparr>r_id = 3, r_description = utf16 ''Scan'', r_qty = 3,
                    r_unit_price = 1999, r_line_total = 5997\<rparr>])
   \<and> get_billing_items (mysql True) (Some (utf16 '' 0x1 '')) (run (mysql True) some_requests seed_store)
     = (200, Json [\<lparr>r_id = 1, r_description = utf16 ''Consultation fee'', r_qty = 1,
                    r_unit_price = 250000, r_line_total = 250000\<rparr>,
                   \<lparr>r_id = 2, r_description = utf16 ''ECG'', r_qty = 1,
                    r_unit_price = 180000, r_line_total = 180000\<rparr>,
                   \<lparr>r_id = 4, r_description = utf16 ''Scan'', r_qty = 2,
                    r_unit_price = 50, r_line_total = 100\<rparr>])
   \<and> sorted (map i_id (billing_items (run (mysql True) some_requests seed_store)))"
  using listing_examples
    billing_items_listing [where n = 2 and eng = "mysql True"
      and s = "run (mysql True) some_requests seed_store"
      and q = "Some (utf16 '' 0x1 '')" and ?s0.0 = seed_store and rs = some_requests]
    seed_store_ok
  by (simp add: seed_store_def)

lemma no_items_of_unknown_bill:
  assumes "store_ok s" and "list_all (\<lambda>b. \<not> where_eq q (b_id b)) (bills s)"
  shows "filter (\<lambda>i. where_eq q (i_bill_id i)) (billing_items s) = []"
  using assms by (auto simp: store_ok_def list_all_iff filter_empty_conv)

text \<open>
  C5, as the code has it. The response is 400 with \<^verbatim>\<open>billId is required\<close> exactly when
  the \<^verbatim>\<open>billId\<close> parameter is absent or is a string that \<^verbatim>\<open>Number\<close> reads as 0 or
  as \<open>NaN\<close>: the empty string, white space, \<^verbatim>\<open>0\<close>, a literal too small for a double
  such as \<^verbatim>\<open>1e-400\<close>, and every string that is not numeric. For a parameter that reads
  as a finite number other than 0 and is the id of no bill, the response is 200 with the
  empty list.
\<close>

theorem billing_items_bad_request_iff:
  "(get_billing_items eng q s = (400, Error ''billId is required'')
      \<longleftrightarrow> q = None
          \<or> (\<exists>str. q = Some str \<and> (StringToNumber str = Fin 0 \<or> StringToNumber str = NaN)))
   \<and> (q = Some str \<and> StringToNumber str = Fin x \<and> x \<noteq> 0 \<and> store_ok s
        \<and> list_all (\<lambda>b. \<not> where_eq (Fin x) (b_id b)) (bills s)
        \<longrightarrow> get_billing_items eng q s = (200, Json []))"
proof -
  have "get_billing_items eng q s = (400, Error ''billId is required'')
      \<longleftrightarrow> q = None
          \<or> (\<exists>str. q = Some str \<and> (StringToNumber str = Fin 0 \<or> StringToNumber str = NaN))"
    by (cases q)
      (auto simp: get_billing_items_def billId_of_string billId_absent js_not_iff Let_def
        split: if_splits)
  moreover have "q = Some str \<and> StringToNumber str = Fin x \<and> x \<noteq> 0 \<and> store_ok s
        \<and> list_all (\<lambda>b. \<not> where_eq (Fin x) (b_id b)) (bills s)
        \<longrightarrow> get_billing_items eng q s = (200, Json [])"
    by (auto simp: get_billing_items_def billId_of_string js_not_iff binds_def
        no_items_of_unknown_bill)
  ultimately show ?thesis by blast
qed

lemma bad_request_examples:
  "StringToNumber (utf16 ''0'') = Fin 0" "StringToNumber (utf16 ''1e-400'') = Fin 0"
  "StringToNumber [0xA0, 0x20] = Fin 0" "StringToNumber (utf16 ''999'') = Fin 999"
  by (simp_all add: eval_string eval_number)

theorem billing_items_bad_request_iff_witness:
  "get_billing_items (mysql True) (Some (utf16 ''0'')) seed_store = (400, Error ''billId is required'')
   \<and> get_billing_items (mysql True) None seed_store = (400, Error ''billId is required'')
   \<and> get_billing_items (mysql True) (Some (utf16 ''1e-400'')) seed_store
       = (400, Error ''billId is required'')
   \<and> get_billing_items (mysql True) (Some [0xA0, 0x20]) seed_store
       = (400, Error ''billId is required'')
   \<and> get_billing_items (mysql True) (Some (utf16 ''999'')) seed_store = (200, Json [])"
  using bad_request_examples
    billing_items_bad_request_iff [of "mysql True" "Some (utf16 ''0'')" seed_store "utf16 ''0''" 0]
    billing_items_bad_request_iff [of "mysql True" None seed_store "utf16 ''0''" 0]
    billing_items_bad_request_iff [of "mysql True" "Some (utf16 ''1e-400'')" seed_store "utf16 ''0''" 0]
    billing_items_bad_request_iff [of "mysql True" "Some [0xA0, 0x20]" seed_store "utf16 ''0''" 0]
    billing_items_bad_request_iff [of "mysql True" "Some (utf16 ''999'')" seed_store "utf16 ''999''" 999]
  by (simp add: eval_engine store_ok_def seed_store_def)

text \<open>
  The request \<^verbatim>\<open>GET /api/billing/items?billId=abc\<close> is answered 400 with
  \<^verbatim>\<open>billId is required\<close>, although the parameter is present and is not 0.
\<close>

theorem billing_items_non_numeric_id:
  "get_billing_items (mysql True) (Some (utf16 ''abc'')) seed_store
     = (400, Error ''billId is required'')
   \<and> Some (utf16 ''abc'') \<noteq> (None :: jsstring option)
   \<and> Number (Str (utf16 ''abc'')) \<noteq> Fin 0"
  by (simp add: eval_string eval_number eval_handlers)

end
